theory Spec2Isabelle
  imports Main "HOL-Library.Word"
begin

text \<open>
  A shallow embedding of the Go package \<open>database\<close>: the type resolver and the row
  materializer (\<open>makeRow\<close>, \<open>getRowValue\<close>, \<open>getResultantRow\<close>), the result walker
  (\<open>parseRowResults\<close>, \<open>rowResultWalk\<close>), the single-row lookups, the supplementation of
  the configs from the environment, \<open>SetSchema\<close>, and \<open>Record.Update\<close>. The package
  exists in two variants, an older one without \<open>Record\<close> and the one its tests exercise;
  the functions modelled here are the same in both, except where a remark says otherwise.
  What belongs to database/sql (the cursor, \<open>sql.Open\<close>, the connection) is a parameter
  of the model or is described by the part of its contract that the package relies on.
\<close>

section \<open>Values\<close>

text \<open>
  The three nullable holders of database/sql that the program allocates as scan targets.
  \<open>int64\<close> is a 64-bit word; a \<open>float64\<close> is carried as its 64-bit IEEE pattern,
  which the program only moves around and never computes with.
\<close>

type_synonym int64 = "64 word"
type_synonym float64 = "64 word"

record NullString =
  ns_String :: string
  ns_Valid :: bool

record NullInt64 =
  ni_Int64 :: int64
  ni_Valid :: bool

record NullFloat64 =
  nf_Float64 :: float64
  nf_Valid :: bool

text \<open>
  The dynamic values (\<open>interface{}\<close>) that occur in the program: the nil interface, plain
  strings and numbers, the three holders by value, and a pointer to a value.
\<close>

datatype dyn =
    DNil
  | DString string
  | DInt64 int64
  | DFloat64 float64
  | DNullString NullString
  | DNullInt64 NullInt64
  | DNullFloat64 NullFloat64
  | DPtr dyn

text \<open>The zero values that \<open>var newCol sql.NullXxx\<close> declares.\<close>

definition zeroNullString :: NullString where
  "zeroNullString = \<lparr>ns_String = [], ns_Valid = False\<rparr>"

definition zeroNullInt64 :: NullInt64 where
  "zeroNullInt64 = \<lparr>ni_Int64 = 0, ni_Valid = False\<rparr>"

definition zeroNullFloat64 :: NullFloat64 where
  "zeroNullFloat64 = \<lparr>nf_Float64 = 0, nf_Valid = False\<rparr>"

text \<open>The kind of scan target a dynamic value is, when it is a pointer to a holder.\<close>

datatype kind = NullableInt | NullableFloat | NullableString

fun targetKind :: "dyn \<Rightarrow> kind option" where
  "targetKind (DPtr (DNullInt64 _)) = Some NullableInt"
| "targetKind (DPtr (DNullFloat64 _)) = Some NullableFloat"
| "targetKind (DPtr (DNullString _)) = Some NullableString"
| "targetKind _ = None"

section \<open>makeRow: the type resolver\<close>

text \<open>
  The \<open>switch typeMapping[v]\<close> of \<open>makeRow\<close>'s loop body: the pointer to the fresh holder
  that the matching case appends. The cases are string literals compared with \<open>==\<close>, in the
  order of the source; the last line is the \<open>default\<close> case.
\<close>

definition makeRow_switch :: "string \<Rightarrow> dyn" where
  "makeRow_switch t =
    (if t = ''INT'' then DPtr (DNullInt64 zeroNullInt64)
     else if t = ''BIT'' then DPtr (DNullInt64 zeroNullInt64)
     else if t = ''TINYINT'' then DPtr (DNullInt64 zeroNullInt64)
     else if t = ''BOOL'' then DPtr (DNullInt64 zeroNullInt64)
     else if t = ''BOOLEAN'' then DPtr (DNullInt64 zeroNullInt64)
     else if t = ''SMALLINT'' then DPtr (DNullInt64 zeroNullInt64)
     else if t = ''MEDIUMINT'' then DPtr (DNullInt64 zeroNullInt64)
     else if t = ''INTEGER'' then DPtr (DNullInt64 zeroNullInt64)
     else if t = ''BIGINT'' then DPtr (DNullInt64 zeroNullInt64)
     else if t = ''FLOAT'' then DPtr (DNullFloat64 zeroNullFloat64)
     else if t = ''DOUBLE'' then DPtr (DNullFloat64 zeroNullFloat64)
     else if t = ''DECIMAL'' then DPtr (DNullFloat64 zeroNullFloat64)
     else if t = ''DEC'' then DPtr (DNullFloat64 zeroNullFloat64)
     else if t = ''CHAR'' then DPtr (DNullString zeroNullString)
     else if t = ''VARCHAR'' then DPtr (DNullString zeroNullString)
     else if t = ''BINARY'' then DPtr (DNullString zeroNullString)
     else if t = ''VARBINARY'' then DPtr (DNullString zeroNullString)
     else if t = ''TINYBLOB'' then DPtr (DNullString zeroNullString)
     else if t = ''TINYTEXT'' then DPtr (DNullString zeroNullString)
     else if t = ''TEXT'' then DPtr (DNullString zeroNullString)
     else if t = ''BLOB'' then DPtr (DNullString zeroNullString)
     else if t = ''MEDIUMTEXT'' then DPtr (DNullString zeroNullString)
     else if t = ''MEDIUMBLOB'' then DPtr (DNullString zeroNullString)
     else if t = ''LONGTEXT'' then DPtr (DNullString zeroNullString)
     else if t = ''LONGBLOB'' then DPtr (DNullString zeroNullString)
     else if t = ''ENUM'' then DPtr (DNullString zeroNullString)
     else if t = ''SET'' then DPtr (DNullString zeroNullString)
     else if t = ''DATE'' then DPtr (DNullString zeroNullString)
     else if t = ''DATETIME'' then DPtr (DNullString zeroNullString)
     else if t = ''TIMESTAMP'' then DPtr (DNullString zeroNullString)
     else if t = ''TIME'' then DPtr (DNullString zeroNullString)
     else if t = ''YEAR'' then DPtr (DNullString zeroNullString)
     else DPtr (DNullString zeroNullString))"

text \<open>
  A Go map from column name to type name; indexing a missing key gives the empty string.
\<close>

type_synonym typeMapping = "string \<rightharpoonup> string"

definition index_typeMapping :: "typeMapping \<Rightarrow> string \<Rightarrow> string" where
  "index_typeMapping m v = (case m v of None \<Rightarrow> [] | Some t \<Rightarrow> t)"

text \<open>\<open>makeRow\<close>: one append per column, in column order.\<close>

fun makeRow_loop :: "typeMapping \<Rightarrow> string list \<Rightarrow> dyn list \<Rightarrow> dyn list" where
  "makeRow_loop typeMapping [] row = row"
| "makeRow_loop typeMapping (v # cols) row =
     makeRow_loop typeMapping cols (row @ [makeRow_switch (index_typeMapping typeMapping v)])"

definition makeRow :: "typeMapping \<Rightarrow> string list \<Rightarrow> dyn list" where
  "makeRow typeMapping cols = makeRow_loop typeMapping cols []"

text \<open>The type names the dispatch table of the specification lists, by family.\<close>

definition integerFamily :: "string list" where
  "integerFamily = [''INT'', ''BIT'', ''TINYINT'', ''BOOL'', ''BOOLEAN'', ''SMALLINT'',
     ''MEDIUMINT'', ''INTEGER'', ''BIGINT'']"

definition floatFamily :: "string list" where
  "floatFamily = [''FLOAT'', ''DOUBLE'', ''DECIMAL'', ''DEC'']"

definition stringFamily :: "string list" where
  "stringFamily = [''CHAR'', ''VARCHAR'', ''BINARY'', ''VARBINARY'', ''TINYBLOB'', ''TINYTEXT'',
     ''TEXT'', ''BLOB'', ''MEDIUMTEXT'', ''MEDIUMBLOB'', ''LONGTEXT'', ''LONGBLOB'', ''ENUM'',
     ''SET'', ''DATE'', ''DATETIME'', ''TIMESTAMP'', ''TIME'', ''YEAR'']"

text \<open>
  Two spellings differ only in letter case when they agree after ASCII upper-casing.
\<close>

definition toUpper :: "char \<Rightarrow> char" where
  "toUpper c =
     (case map_of (zip ''abcdefghijklmnopqrstuvwxyz'' ''ABCDEFGHIJKLMNOPQRSTUVWXYZ'') c of
        None \<Rightarrow> c | Some u \<Rightarrow> u)"

definition sameUpToCase :: "string \<Rightarrow> string \<Rightarrow> bool" where
  "sameUpToCase s t = (map toUpper s = map toUpper t)"

section \<open>getRowValue\<close>

text \<open>
  \<open>getRowValue\<close>: a pointer is dereferenced (\<open>Elem\<close>, which \<open>CanInterface\<close> always
  allows for a value reached from \<open>reflect.ValueOf\<close>), and the three type assertions are
  tried in the order of the source; each returns the holder's payload field. Anything else
  is returned as it is. \<open>reflect.ValueOf\<close> never reports the kind \<open>Interface\<close>, so only
  pointers take the first branch.
\<close>

fun getRowValue :: "dyn \<Rightarrow> dyn" where
  "getRowValue (DPtr rowValue) =
     (case rowValue of
        DNullString stringVal \<Rightarrow> DString (ns_String stringVal)
      | DNullInt64 intVal \<Rightarrow> DInt64 (ni_Int64 intVal)
      | DNullFloat64 floatVal \<Rightarrow> DFloat64 (nf_Float64 floatVal)
      | _ \<Rightarrow> rowValue)"
| "getRowValue row = row"

section \<open>Errors\<close>

text \<open>
  An \<open>error\<close> value carries its message. Two outcomes that are not error values are kept
  apart from it: a run-time panic, and the end of the process by \<open>log.Fatal\<close>. A function
  returning \<open>(v, nil)\<close> is modelled as \<open>Inr v\<close>, one returning \<open>(nil, err)\<close> or
  \<open>(0, err)\<close> as \<open>Inl err\<close>.
\<close>

datatype error = Error string | Panic string | Fatal error

section \<open>The cursor of database/sql, as the program uses it\<close>

text \<open>
  The program reaches the driver only through \<open>*sql.Rows\<close>: \<open>Columns\<close>,
  \<open>ColumnTypes\<close>, \<open>Next\<close>, \<open>Scan\<close>, \<open>Err\<close> and \<open>Close\<close>. A cursor is open or
  closed. It holds the column names and column types of its result set, the rows it will
  still deliver, the row \<open>Next\<close> has positioned it on, the driver fault that will end the
  iteration after these rows (if any), the error the iteration has ended with (the field
  \<open>lasterr\<close>; \<open>None\<close> stands for both nil and \<open>io.EOF\<close>), the conversions the library
  applies to its non-null values, and the number of \<open>Close\<close> calls it has received from
  the program. Every cursor that database/sql hands out has driver rows; the zero value of
  \<open>sql.Rows\<close>, which no function of the library returns, is outside the model.
\<close>

datatype driver_value = DrvNil | DrvInt64 int64 | DrvFloat64 float64 | DrvBytes string

record converter =
  toString :: "driver_value \<Rightarrow> error + string"
  toInt64 :: "driver_value \<Rightarrow> error + int64"
  toFloat64 :: "driver_value \<Rightarrow> error + float64"

record Rows =
  rows_closed :: bool
  rows_columns :: "string list"
  rows_columnTypes :: "(string \<times> string) list"
  rows_pending :: "driver_value list list"
  rows_lastcols :: "driver_value list option"
  rows_fault :: "error option"
  rows_lasterr :: "error option"
  rows_convert :: converter
  rows_closeCalls :: nat

text \<open>
  The error a closed cursor answers with: the error the iteration ended with, if there is
  one, and \<open>errRowsClosed\<close> otherwise.
\<close>

definition lasterrOrErrRowsClosed :: "Rows \<Rightarrow> error" where
  "lasterrOrErrRowsClosed rs =
     (case rows_lasterr rs of Some err \<Rightarrow> err | None \<Rightarrow> Error ''sql: Rows are closed'')"

text \<open>\<open>Columns\<close> and \<open>ColumnTypes\<close> fail on a closed cursor, and only there.\<close>

definition Columns :: "Rows \<Rightarrow> error + string list" where
  "Columns rs = (if rows_closed rs then Inl (lasterrOrErrRowsClosed rs) else Inr (rows_columns rs))"

text \<open>Each column type is given by its \<open>Name()\<close> and its \<open>DatabaseTypeName()\<close>.\<close>

definition ColumnTypes :: "Rows \<Rightarrow> error + (string \<times> string) list" where
  "ColumnTypes rs =
     (if rows_closed rs then Inl (lasterrOrErrRowsClosed rs) else Inr (rows_columnTypes rs))"

text \<open>
  \<open>Next\<close> gives false on a closed cursor. On an open one it positions the cursor on the
  next row; when there is none it records how the iteration ended and closes the cursor
  itself (a close inside the library, which is not a \<open>Close\<close> call of the program).
\<close>

definition Next :: "Rows \<Rightarrow> bool \<times> Rows" where
  "Next rs =
     (if rows_closed rs then (False, rs)
      else (case rows_pending rs of
              [] \<Rightarrow> (False, rs\<lparr>rows_closed := True, rows_lasterr := rows_fault rs\<rparr>)
            | r # rest \<Rightarrow> (True, rs\<lparr>rows_pending := rest, rows_lastcols := Some r\<rparr>)))"

definition Err :: "Rows \<Rightarrow> error option" where
  "Err rs = rows_lasterr rs"

text \<open>\<open>Close\<close> closes the cursor; on a closed cursor it changes nothing but the count.\<close>

definition Close :: "Rows \<Rightarrow> Rows" where
  "Close rs = rs\<lparr>rows_closed := True, rows_closeCalls := Suc (rows_closeCalls rs)\<rparr>"

text \<open>
  \<open>Scan\<close> into one destination. The \<open>Scan\<close> method of each holder stores the zero payload
  with \<open>Valid = false\<close> for a database null, and otherwise sets \<open>Valid = true\<close> and
  converts the value into the payload. The result is the pointer with its new pointee.
\<close>

fun scanDest :: "converter \<Rightarrow> driver_value \<Rightarrow> dyn \<Rightarrow> error + dyn" where
  "scanDest cv v (DPtr (DNullString _)) =
     (if v = DrvNil then Inr (DPtr (DNullString \<lparr>ns_String = [], ns_Valid = False\<rparr>))
      else (case toString cv v of
              Inl err \<Rightarrow> Inl err
            | Inr s \<Rightarrow> Inr (DPtr (DNullString \<lparr>ns_String = s, ns_Valid = True\<rparr>))))"
| "scanDest cv v (DPtr (DNullInt64 _)) =
     (if v = DrvNil then Inr (DPtr (DNullInt64 \<lparr>ni_Int64 = 0, ni_Valid = False\<rparr>))
      else (case toInt64 cv v of
              Inl err \<Rightarrow> Inl err
            | Inr i \<Rightarrow> Inr (DPtr (DNullInt64 \<lparr>ni_Int64 = i, ni_Valid = True\<rparr>))))"
| "scanDest cv v (DPtr (DNullFloat64 _)) =
     (if v = DrvNil then Inr (DPtr (DNullFloat64 \<lparr>nf_Float64 = 0, nf_Valid = False\<rparr>))
      else (case toFloat64 cv v of
              Inl err \<Rightarrow> Inl err
            | Inr f \<Rightarrow> Inr (DPtr (DNullFloat64 \<lparr>nf_Float64 = f, nf_Valid = True\<rparr>))))"
| "scanDest cv v dest = Inl (Error ''sql: Scan error: unsupported destination'')"

fun scanAll :: "converter \<Rightarrow> driver_value list \<Rightarrow> dyn list \<Rightarrow> error + dyn list" where
  "scanAll cv [] [] = Inr []"
| "scanAll cv (v # vs) (dest # dests) =
     (case scanDest cv v dest of
        Inl err \<Rightarrow> Inl err
      | Inr d \<Rightarrow> (case scanAll cv vs dests of Inl err \<Rightarrow> Inl err | Inr ds \<Rightarrow> Inr (d # ds)))"
| "scanAll cv _ _ = Inl (Error ''sql: wrong number of destination arguments in Scan'')"

text \<open>
  \<open>Scan\<close> fails after a driver fault, on a closed cursor, without a current row, and when
  the number of destinations is not the number of columns of the row; otherwise it converts
  column by column and fails at the first conversion that fails. On success the result
  lists the pointers with their new pointees, in the order of the destinations.
\<close>

definition Scan :: "Rows \<Rightarrow> dyn list \<Rightarrow> error + dyn list" where
  "Scan rs dest =
     (case rows_lasterr rs of
        Some err \<Rightarrow> Inl err
      | None \<Rightarrow>
          if rows_closed rs then Inl (Error ''sql: Rows are closed'')
          else (case rows_lastcols rs of
                  None \<Rightarrow> Inl (Error ''sql: Scan called without calling Next'')
                | Some vals \<Rightarrow>
                    if length dest \<noteq> length vals
                    then Inl (Error ''sql: wrong number of destination arguments in Scan'')
                    else scanAll (rows_convert rs) vals dest))"

section \<open>The row materializer and the result walker\<close>

text \<open>A generic record: a Go map from column name to value.\<close>

type_synonym generic_record = "string \<rightharpoonup> dyn"

fun mapColTypes_loop :: "(string \<times> string) list \<Rightarrow> typeMapping \<Rightarrow> typeMapping" where
  "mapColTypes_loop [] typeMapping = typeMapping"
| "mapColTypes_loop (v # colTypes) typeMapping =
     mapColTypes_loop colTypes (typeMapping(fst v \<mapsto> snd v))"

definition mapColTypes :: "(string \<times> string) list \<Rightarrow> typeMapping" where
  "mapColTypes colTypes = mapColTypes_loop colTypes Map.empty"

definition getTypeMapping :: "Rows \<Rightarrow> error + typeMapping" where
  "getTypeMapping rowResult =
     (case ColumnTypes rowResult of
        Inl err \<Rightarrow> Inl err
      | Inr colTypes \<Rightarrow> Inr (mapColTypes colTypes))"

text \<open>
  The loop of \<open>getResultantRow\<close> over the scanned row; \<open>cols[count]\<close> panics when
  \<open>count\<close> is out of range.
\<close>

fun getResultantRow_loop ::
  "string list \<Rightarrow> dyn list \<Rightarrow> nat \<Rightarrow> generic_record \<Rightarrow> error + generic_record" where
  "getResultantRow_loop cols [] count resultRow = Inr resultRow"
| "getResultantRow_loop cols (v # row) count resultRow =
     (if count < length cols
      then getResultantRow_loop cols row (Suc count) (resultRow(cols ! count \<mapsto> getRowValue v))
      else Inl (Panic ''index out of range''))"

definition getResultantRow ::
  "string list \<Rightarrow> typeMapping \<Rightarrow> Rows \<Rightarrow> error + generic_record" where
  "getResultantRow cols typeMapping rowResult =
     (case Scan rowResult (makeRow typeMapping cols) of
        Inl err \<Rightarrow> Inl err
      | Inr row \<Rightarrow> getResultantRow_loop cols row 0 Map.empty)"

text \<open>
  The \<open>for rowResult.Next()\<close> loop of \<open>rowResultWalk\<close>. It returns the cursor as the loop
  left it, and either the error of the row that failed or the rows collected.
\<close>

function rowResultWalk_loop ::
  "Rows \<Rightarrow> string list \<Rightarrow> typeMapping \<Rightarrow> generic_record list
     \<Rightarrow> Rows \<times> (error + generic_record list)" where
  "rowResultWalk_loop rowResult cols typeMapping result =
     (if fst (Next rowResult)
      then (case getResultantRow cols typeMapping (snd (Next rowResult)) of
              Inl err \<Rightarrow> (snd (Next rowResult), Inl err)
            | Inr resultRow \<Rightarrow>
                rowResultWalk_loop (snd (Next rowResult)) cols typeMapping (result @ [resultRow]))
      else (snd (Next rowResult), Inr result))"
  by pat_completeness auto
termination
  by (relation "measure (\<lambda>(rowResult, cols, typeMapping, result). length (rows_pending rowResult))")
     (auto simp add: Next_def split: list.splits if_splits)

text \<open>
  \<open>rowResultWalk\<close>: the deferred \<open>Close\<close> runs on each of the three returns.
\<close>

definition rowResultWalk ::
  "Rows \<Rightarrow> string list \<Rightarrow> typeMapping \<Rightarrow> Rows \<times> (error + generic_record list)" where
  "rowResultWalk rowResult cols typeMapping =
     (case rowResultWalk_loop rowResult cols typeMapping [] of
        (rs, Inl err) \<Rightarrow> (Close rs, Inl err)
      | (rs, Inr result) \<Rightarrow>
          (case Err rs of
             Some err \<Rightarrow> (Close rs, Inl err)
           | None \<Rightarrow> (Close rs, Inr result)))"

definition parseRowResults :: "Rows \<Rightarrow> Rows \<times> (error + generic_record list)" where
  "parseRowResults rowResult =
     (case Columns rowResult of
        Inl err \<Rightarrow> (rowResult, Inl err)
      | Inr cols \<Rightarrow>
          (case getTypeMapping rowResult of
             Inl err \<Rightarrow> (rowResult, Inl err)
           | Inr typeMapping \<Rightarrow> rowResultWalk rowResult cols typeMapping))"

section \<open>The database handle\<close>

text \<open>
  \<open>sql.Result\<close> answers two questions, each with a number or an error.
\<close>

record sqlResult =
  res_LastInsertId :: "error + int64"
  res_RowsAffected :: "error + int64"

text \<open>
  A connection (\<open>*sql.DB\<close>) is what it answers to \<open>Exec\<close> and to \<open>Query\<close> for a
  statement and its positional arguments.
\<close>

record DB =
  db_Exec :: "string \<Rightarrow> dyn list \<Rightarrow> error + sqlResult"
  db_Query :: "string \<Rightarrow> dyn list \<Rightarrow> error + Rows"

record Configs =
  Host :: string
  Username :: string
  Password :: string
  Port :: string
  Database :: string
  Driver :: string

text \<open>
  The \<open>Database\<close> struct. \<open>connection\<close> is \<open>None\<close> for the nil pointer. \<open>configs\<close> is
  the struct the pointer refers to: a nil \<open>configs\<close>, on which every method below panics at
  its first field access, is outside the model.
\<close>

record Database =
  connection :: "DB option"
  configs :: Configs
  Schemaless :: bool

text \<open>
  \<open>Exec\<close>; a nil slice of arguments is \<open>None\<close>. Calling a method of a nil connection
  panics.
\<close>

definition Exec :: "Database \<Rightarrow> string \<Rightarrow> dyn list option \<Rightarrow> error + sqlResult" where
  "Exec d query inserts =
     (case connection d of
        None \<Rightarrow> Inl (Panic ''invalid memory address or nil pointer dereference'')
      | Some conn \<Rightarrow>
          (case inserts of
             Some args \<Rightarrow> db_Exec conn query args
           | None \<Rightarrow> db_Exec conn query []))"

definition Name :: "Database \<Rightarrow> string" where
  "Name database = Database (configs database)"

text \<open>
  \<open>getRows\<close> returns the cursor as an \<open>interface{}\<close>; \<open>getRowResult\<close> asserts it back to
  \<open>*sql.Rows\<close>. Its \<open>CanInterface\<close> test holds for every value reached from
  \<open>reflect.ValueOf\<close>, so only the type assertion is a branch.
\<close>

datatype iface = IfaceRows Rows | IfaceOther dyn

definition getRows :: "Database \<Rightarrow> string \<Rightarrow> dyn list option \<Rightarrow> error + iface" where
  "getRows d query escaped =
     (case connection d of
        None \<Rightarrow> Inl (Panic ''invalid memory address or nil pointer dereference'')
      | Some conn \<Rightarrow>
          (case escaped of
             Some args \<Rightarrow>
               (case db_Query conn query args of
                  Inl err \<Rightarrow> Inl err
                | Inr rows \<Rightarrow> Inr (IfaceRows rows))
           | None \<Rightarrow>
               (case db_Query conn query [] of
                  Inl err \<Rightarrow> Inl err
                | Inr rows \<Rightarrow> Inr (IfaceRows rows))))"

definition getRowResult :: "Database \<Rightarrow> string \<Rightarrow> dyn list option \<Rightarrow> error + Rows" where
  "getRowResult d query escaped =
     (case getRows d query escaped of
        Inl err \<Rightarrow> Inl err
      | Inr rows \<Rightarrow>
          (case rows of
             IfaceRows rowResult \<Rightarrow> Inr rowResult
           | IfaceOther _ \<Rightarrow> Inl (Error ''type-assertion error on rows'')))"

definition QueryRaw ::
  "Database \<Rightarrow> string \<Rightarrow> dyn list option \<Rightarrow> error + generic_record list" where
  "QueryRaw d query escaped =
     (case getRowResult d query escaped of
        Inl err \<Rightarrow> Inl err
      | Inr rowResult \<Rightarrow> snd (parseRowResults rowResult))"

text \<open>
  \<open>Row\<close> and \<open>RowByStringField\<close> differ between the two variants of the package. First
  the variant that returns a generic record (the one the test-suite calls). \<open>rows[0]\<close> is
  only reached when \<open>len(rows) \<ge> 1\<close>.
\<close>

definition Row :: "Database \<Rightarrow> string \<Rightarrow> int64 \<Rightarrow> error + generic_record" where
  "Row d query ident =
     (case QueryRaw d query (Some [DInt64 ident]) of
        Inl err \<Rightarrow> Inl err
      | Inr rows \<Rightarrow>
          if length rows < 1 then Inl (Error ''no result'') else Inr (rows ! 0))"

definition RowByStringField :: "Database \<Rightarrow> string \<Rightarrow> string \<Rightarrow> error + generic_record" where
  "RowByStringField d query field =
     (case QueryRaw d query (Some [DString field]) of
        Inl err \<Rightarrow> Inl err
      | Inr rows \<Rightarrow>
          if length rows < 1 then Inl (Error ''no result'') else Inr (rows ! 0))"

text \<open>
  The older variant, of the file \<open>database.go\<close>: \<open>Row\<close> and \<open>RowByStringField\<close> return
  the \<open>*sql.Row\<close> of \<open>QueryRow\<close> and no error. \<open>QueryRow\<close> runs \<open>Query\<close> and keeps
  its answer, the cursor or the error, in the handle for a later \<open>Scan\<close> by the caller.
  The only failure of the two functions themselves is the panic on a nil connection.
\<close>

datatype sqlRow = SqlRow "error + Rows"

definition QueryRow :: "DB \<Rightarrow> string \<Rightarrow> dyn list \<Rightarrow> sqlRow" where
  "QueryRow conn query args = SqlRow (db_Query conn query args)"

definition Row_sqlRow :: "Database \<Rightarrow> string \<Rightarrow> int64 \<Rightarrow> error + sqlRow" where
  "Row_sqlRow d query ident =
     (case connection d of
        None \<Rightarrow> Inl (Panic ''invalid memory address or nil pointer dereference'')
      | Some conn \<Rightarrow> Inr (QueryRow conn query [DInt64 ident]))"

definition RowByStringField_sqlRow :: "Database \<Rightarrow> string \<Rightarrow> string \<Rightarrow> error + sqlRow" where
  "RowByStringField_sqlRow d query field =
     (case connection d of
        None \<Rightarrow> Inl (Panic ''invalid memory address or nil pointer dereference'')
      | Some conn \<Rightarrow> Inr (QueryRow conn query [DString field]))"

section \<open>Configs and the environment\<close>

text \<open>
  \<open>hasAllConfigs\<close>, \<open>setConfigs\<close> and \<open>supplementConfigs\<close> take the schemaless flag
  as an argument in one variant of the package and read \<open>d.Schemaless\<close> in the other;
  \<open>Make\<close> and \<open>MakeSchemaless\<close> set the field to the value they pass, so the two agree.
\<close>

definition hasAllConfigs :: "Database \<Rightarrow> bool \<Rightarrow> bool" where
  "hasAllConfigs d schemaless =
     (let hasDB = (if schemaless then True else length (Database (configs d)) > 0)
      in hasDB \<and>
         length (Driver (configs d)) > 0 \<and>
         length (Host (configs d)) > 0 \<and>
         length (Password (configs d)) > 0 \<and>
         length (Port (configs d)) > 0 \<and>
         length (Username (configs d)) > 0)"

definition setDBConfig :: "string \<Rightarrow> string \<Rightarrow> Database \<Rightarrow> Database" where
  "setDBConfig key val d =
     (if key = ''host'' then
        (if length (Host (configs d)) < 1 then d\<lparr>configs := (configs d)\<lparr>Host := val\<rparr>\<rparr> else d)
      else if key = ''username'' then
        (if length (Username (configs d)) < 1
         then d\<lparr>configs := (configs d)\<lparr>Username := val\<rparr>\<rparr> else d)
      else if key = ''password'' then
        (if length (Password (configs d)) < 1
         then d\<lparr>configs := (configs d)\<lparr>Password := val\<rparr>\<rparr> else d)
      else if key = ''port'' then
        (if length (Port (configs d)) < 1 then d\<lparr>configs := (configs d)\<lparr>Port := val\<rparr>\<rparr> else d)
      else if key = ''database'' then
        (if length (Database (configs d)) < 1
         then d\<lparr>configs := (configs d)\<lparr>Database := val\<rparr>\<rparr> else d)
      else if key = ''driver'' then
        (if length (Driver (configs d)) < 1
         then d\<lparr>configs := (configs d)\<lparr>Driver := val\<rparr>\<rparr> else d)
      else d)"

text \<open>
  The environment is the function \<open>os.Getenv\<close>, which gives the empty string for a
  variable that is not set. A Go map with string keys and values is written as the list of
  its entries; \<open>getEnvVars\<close> stores one entry per entry of its input.
\<close>

definition getEnvVars :: "(string \<Rightarrow> string) \<Rightarrow> (string \<times> string) list \<Rightarrow> (string \<times> string) list" where
  "getEnvVars getenv input = map (\<lambda>(inputName, varName). (inputName, getenv varName)) input"

definition envConfigs :: "(string \<Rightarrow> string) \<Rightarrow> (string \<times> string) list" where
  "envConfigs getenv = getEnvVars getenv
     [(''host'', ''DB_HOST''),
      (''username'', ''DB_USERNAME''),
      (''password'', ''DB_PASSWORD''),
      (''port'', ''DB_PORT''),
      (''database'', ''DB_DATABASE''),
      (''driver'', ''DB_CONNECTION'')]"

text \<open>
  \<open>range\<close> over a map visits every entry once, in an order the language leaves open. The
  order is a parameter \<open>visit\<close> of the model: it turns the entries of a map into the
  sequence in which the loop sees them.
\<close>

definition rangeOrder :: "((string \<times> string) list \<Rightarrow> (string \<times> string) list) \<Rightarrow> (string \<times> string) list \<Rightarrow> bool" where
  "rangeOrder visit m = (set (visit m) = set m \<and> length (visit m) = length m)"

fun supplementConfigs_loop :: "bool \<Rightarrow> (string \<times> string) list \<Rightarrow> Database \<Rightarrow> Database" where
  "supplementConfigs_loop schemaless [] d = d"
| "supplementConfigs_loop schemaless ((key, val) # envVars) d =
     (if key = ''database'' \<and> schemaless
      then supplementConfigs_loop schemaless envVars d
      else supplementConfigs_loop schemaless envVars (setDBConfig key val d))"

definition supplementConfigs ::
  "(string \<Rightarrow> string) \<Rightarrow> ((string \<times> string) list \<Rightarrow> (string \<times> string) list)
     \<Rightarrow> bool \<Rightarrow> Database \<Rightarrow> Database" where
  "supplementConfigs getenv visit schemaless d =
     supplementConfigs_loop schemaless (visit (envConfigs getenv)) d"

definition setConfigs ::
  "(string \<Rightarrow> string) \<Rightarrow> ((string \<times> string) list \<Rightarrow> (string \<times> string) list)
     \<Rightarrow> bool \<Rightarrow> Database \<Rightarrow> Database" where
  "setConfigs getenv visit schemaless d =
     (if hasAllConfigs d schemaless then d else supplementConfigs getenv visit schemaless d)"

text \<open>
  \<open>connect\<close>: \<open>sql.Open\<close> is a parameter, from the driver name and the connection string
  to a connection or an error; on an error \<open>log.Fatal\<close> ends the process.
\<close>

definition connectionString :: "Database \<Rightarrow> string" where
  "connectionString d =
     (let s = Username (configs d) @ '':'' @ Password (configs d) @ ''@tcp('' @
              Host (configs d) @ '':'' @ Port (configs d) @ '')/''
      in if \<not> Schemaless d then s @ Database (configs d) else s)"

definition connect :: "(string \<Rightarrow> string \<Rightarrow> error + DB) \<Rightarrow> Database \<Rightarrow> error + Database" where
  "connect sql_Open d =
     (case sql_Open (Driver (configs d)) (connectionString d) of
        Inl err \<Rightarrow> Inl (Fatal err)
      | Inr conn \<Rightarrow> Inr (d\<lparr>connection := Some conn\<rparr>))"

definition Make ::
  "(string \<Rightarrow> string \<Rightarrow> error + DB) \<Rightarrow> (string \<Rightarrow> string)
     \<Rightarrow> ((string \<times> string) list \<Rightarrow> (string \<times> string) list) \<Rightarrow> Configs \<Rightarrow> error + Database" where
  "Make sql_Open getenv visit cfg =
     connect sql_Open
       (setConfigs getenv visit False \<lparr>connection = None, configs = cfg, Schemaless = False\<rparr>)"

definition MakeSchemaless ::
  "(string \<Rightarrow> string \<Rightarrow> error + DB) \<Rightarrow> (string \<Rightarrow> string)
     \<Rightarrow> ((string \<times> string) list \<Rightarrow> (string \<times> string) list) \<Rightarrow> Configs \<Rightarrow> error + Database" where
  "MakeSchemaless sql_Open getenv visit cfg =
     connect sql_Open
       (setConfigs getenv visit True \<lparr>connection = None, configs = cfg, Schemaless = True\<rparr>)"

definition SetSchema ::
  "(string \<Rightarrow> string \<Rightarrow> error + DB) \<Rightarrow> string \<Rightarrow> Database \<Rightarrow> error + Database" where
  "SetSchema sql_Open schemaName d =
     connect sql_Open (d\<lparr>configs := (configs d)\<lparr>Database := schemaName\<rparr>, Schemaless := False\<rparr>)"

section \<open>Records\<close>

text \<open>
  \<open>properties\<close> is a Go map; it is written as the list of its entries in the order in
  which \<open>range\<close> visits them. Indexing a missing key gives nil.
\<close>

record Record =
  properties :: "(string \<times> dyn) list"
  database :: Database
  table :: string

definition index_properties :: "(string \<times> dyn) list \<Rightarrow> string \<Rightarrow> dyn" where
  "index_properties props key = (case map_of props key of None \<Rightarrow> DNil | Some v \<Rightarrow> v)"

text \<open>\<open>strings.TrimRight\<close>: all trailing characters that occur in the cutset are removed.\<close>

definition TrimRight :: "string \<Rightarrow> string \<Rightarrow> string" where
  "TrimRight s cutset = rev (dropWhile (\<lambda>c. c \<in> set cutset) (rev s))"

text \<open>
  The loop of \<open>Update\<close> over the properties; its state is \<open>updateStatement\<close>, \<open>where\<close>
  and \<open>inserts\<close>.
\<close>

fun Update_loop ::
  "string \<Rightarrow> (string \<times> dyn) list \<Rightarrow> string \<times> string \<times> dyn list \<Rightarrow> string \<times> string \<times> dyn list" where
  "Update_loop ident [] st = st"
| "Update_loop ident ((field, val) # props) (updateStatement, whereClause, inserts) =
     (if field = ident
      then Update_loop ident props (updateStatement, whereClause @ ident @ '' = ?;'', inserts)
      else Update_loop ident props (updateStatement @ field @ '' = ?, '', whereClause, inserts @ [val]))"

text \<open>
  What \<open>Update\<close> hands to \<open>Exec\<close>: the statement and its arguments.
\<close>

definition Update_call :: "Record \<Rightarrow> string \<Rightarrow> string \<times> dyn list" where
  "Update_call r id0 =
     (let updateStatement = ''UPDATE `'' @ Name (database r) @ ''`.`'' @ table r @ ''` SET '';
          whereClause = '' WHERE '';
          ident = (if length id0 < 1 then ''id'' else id0)
      in (case Update_loop ident (properties r) (updateStatement, whereClause, []) of
            (updateStatement, whereClause, inserts) \<Rightarrow>
              (TrimRight updateStatement '', '' @ whereClause,
               inserts @ [index_properties (properties r) ident])))"

definition Update :: "Record \<Rightarrow> string \<Rightarrow> error + int64" where
  "Update r ident =
     (case Exec (database r) (fst (Update_call r ident)) (Some (snd (Update_call r ident))) of
        Inl err \<Rightarrow> Inl err
      | Inr insertResult \<Rightarrow> res_LastInsertId insertResult)"

section \<open>Sample inputs\<close>

text \<open>
  Concrete collaborators on which the theorems below are evaluated: a converter that accepts
  a driver value of the destination's own kind only, and a cursor over the columns
  \<open>sku\<close> and \<open>weight\<close> of the widgets table.
\<close>

definition sample_converter :: converter where
  "sample_converter =
     \<lparr>toString = (\<lambda>v. case v of DrvBytes s \<Rightarrow> Inr s
                          | _ \<Rightarrow> Inl (Error ''sql: Scan error: unsupported conversion to string'')),
      toInt64 = (\<lambda>v. case v of DrvInt64 i \<Rightarrow> Inr i
                         | _ \<Rightarrow> Inl (Error ''sql: Scan error: converting to int64'')),
      toFloat64 = (\<lambda>v. case v of DrvFloat64 f \<Rightarrow> Inr f
                           | _ \<Rightarrow> Inl (Error ''sql: Scan error: converting to float64''))\<rparr>"

definition widgets_cursor :: "driver_value list list \<Rightarrow> error option \<Rightarrow> Rows" where
  "widgets_cursor rows fault =
     \<lparr>rows_closed = False,
      rows_columns = [''sku'', ''weight''],
      rows_columnTypes = [(''sku'', ''VARCHAR''), (''weight'', ''FLOAT'')],
      rows_pending = rows,
      rows_lastcols = None,
      rows_fault = fault,
      rows_lasterr = None,
      rows_convert = sample_converter,
      rows_closeCalls = 0\<rparr>"

text \<open>
  A connection that answers every query with the widgets cursor over the given rows, and a
  database handle on it.
\<close>

definition sample_DB :: "driver_value list list \<Rightarrow> DB" where
  "sample_DB rows =
     \<lparr>db_Exec = (\<lambda>query args. Inr \<lparr>res_LastInsertId = Inr 0, res_RowsAffected = Inr 1\<rparr>),
      db_Query = (\<lambda>query args. Inr (widgets_cursor rows None))\<rparr>"

definition sample_Configs :: Configs where
  "sample_Configs =
     \<lparr>Host = ''127.0.0.1'', Username = ''root'', Password = ''secret'', Port = ''3306'',
      Database = ''shop'', Driver = ''mysql''\<rparr>"

definition sample_Database :: "driver_value list list \<Rightarrow> Database" where
  "sample_Database rows =
     \<lparr>connection = Some (sample_DB rows), configs = sample_Configs, Schemaless = False\<rparr>"

text \<open>
  An environment that sets four of the six variables, an \<open>sql.Open\<close> that knows the
  driver \<open>mysql\<close> only, and the record of the update test: a weight of 110.9 for the
  widget \<open>WIDG4\<close>.
\<close>

definition sample_getenv :: "string \<Rightarrow> string" where
  "sample_getenv name =
     (if name = ''DB_HOST'' then ''10.0.0.5''
      else if name = ''DB_PORT'' then ''3307''
      else if name = ''DB_DATABASE'' then ''envshop''
      else if name = ''DB_CONNECTION'' then ''mysql''
      else [])"

definition sample_Open :: "string \<Rightarrow> string \<Rightarrow> error + DB" where
  "sample_Open driverName dataSourceName =
     (if driverName = ''mysql'' then Inr (sample_DB [])
      else Inl (Error ''sql: unknown driver''))"

text \<open>
  An \<open>sql.Open\<close> whose connections cannot reach their server: every statement fails with
  an error that names the data source the connection was opened on.
\<close>

definition unreachable_DB :: "string \<Rightarrow> DB" where
  "unreachable_DB dataSourceName =
     \<lparr>db_Exec = (\<lambda>query args. Inl (Error (''dial '' @ dataSourceName))),
      db_Query = (\<lambda>query args. Inl (Error (''dial '' @ dataSourceName)))\<rparr>"

definition unreachable_Open :: "string \<Rightarrow> string \<Rightarrow> error + DB" where
  "unreachable_Open driverName dataSourceName = Inr (unreachable_DB dataSourceName)"

definition sample_Record :: Record where
  "sample_Record =
     \<lparr>properties = [(''weight'', DFloat64 0x405BB9999999999A), (''sku'', DString ''WIDG4'')],
      database = sample_Database [],
      table = ''widgets''\<rparr>"

section \<open>Properties of the type resolver\<close>

lemma makeRow_switch_cases:
  "makeRow_switch t =
     (if t \<in> set integerFamily then DPtr (DNullInt64 zeroNullInt64)
      else if t \<in> set floatFamily then DPtr (DNullFloat64 zeroNullFloat64)
      else DPtr (DNullString zeroNullString))"
  unfolding makeRow_switch_def integerFamily_def floatFamily_def by simp

lemma family_upper: "n \<in> set (integerFamily @ floatFamily) \<Longrightarrow> map toUpper n = n"
  unfolding integerFamily_def floatFamily_def toUpper_def by auto

lemma numeric_kind_iff:
  "targetKind (makeRow_switch t) = Some NullableString \<longleftrightarrow> t \<notin> set (integerFamily @ floatFamily)"
  by (simp add: makeRow_switch_cases)

text \<open>
  C9. For every reported type name the switch of \<open>makeRow\<close> allocates one of exactly three
  kinds of scan target: the listed integer names give a nullable integer, the listed
  float and decimal names a nullable float, the listed text, binary, enum and temporal names
  a nullable string, and every name that is not listed a nullable string as well.
\<close>

theorem type_resolver_kinds:
  "(t \<in> set integerFamily \<longrightarrow> targetKind (makeRow_switch t) = Some NullableInt) \<and>
   (t \<in> set floatFamily \<longrightarrow> targetKind (makeRow_switch t) = Some NullableFloat) \<and>
   (t \<in> set stringFamily \<longrightarrow> targetKind (makeRow_switch t) = Some NullableString) \<and>
   (t \<notin> set integerFamily \<union> set floatFamily \<union> set stringFamily \<longrightarrow>
      targetKind (makeRow_switch t) = Some NullableString) \<and>
   targetKind (makeRow_switch t) \<in> {Some NullableInt, Some NullableFloat, Some NullableString}"
proof -
  have disj1: "t \<in> set floatFamily \<Longrightarrow> t \<notin> set integerFamily"
    unfolding integerFamily_def floatFamily_def by auto
  have disj2: "t \<in> set stringFamily \<Longrightarrow> t \<notin> set integerFamily \<and> t \<notin> set floatFamily"
    unfolding integerFamily_def floatFamily_def stringFamily_def by auto
  show ?thesis
    using disj1 disj2 by (auto simp add: makeRow_switch_cases)
qed

theorem type_resolver_kinds_witness:
  "''BIGINT'' \<in> set integerFamily \<and> targetKind (makeRow_switch ''BIGINT'') = Some NullableInt \<and>
   ''DEC'' \<in> set floatFamily \<and> targetKind (makeRow_switch ''DEC'') = Some NullableFloat \<and>
   ''YEAR'' \<in> set stringFamily \<and> targetKind (makeRow_switch ''YEAR'') = Some NullableString \<and>
   ''GEOMETRY'' \<notin> set integerFamily \<union> set floatFamily \<union> set stringFamily \<and>
   targetKind (makeRow_switch ''GEOMETRY'') = Some NullableString"
  using type_resolver_kinds [of "''BIGINT''"] type_resolver_kinds [of "''DEC''"]
    type_resolver_kinds [of "''YEAR''"] type_resolver_kinds [of "''GEOMETRY''"]
  by (simp add: integerFamily_def floatFamily_def stringFamily_def)

text \<open>
  C4, as stated, fails: \<open>INT\<close> and \<open>int\<close> differ only in letter case, and the first
  resolves to a nullable integer while the second falls to the default, a nullable string.
\<close>

theorem case_insensitive_counterexample:
  "sameUpToCase ''INT'' ''int'' \<and>
   targetKind (makeRow_switch ''INT'') \<noteq> targetKind (makeRow_switch ''int'')"
  by (simp add: sameUpToCase_def toUpper_def makeRow_switch_def)

text \<open>
  C4, amended. The dispatch is a case-sensitive exact match on the listed upper-case
  names. Two spellings that differ only in letter case resolve to the same kind exactly when
  they are the same spelling or neither of them is one of the listed integer or float names
  (then both are nullable strings).
\<close>

theorem case_sensitive_dispatch:
  assumes "sameUpToCase s t"
  shows "targetKind (makeRow_switch s) = targetKind (makeRow_switch t) \<longleftrightarrow>
         (s = t \<or> (s \<notin> set (integerFamily @ floatFamily) \<and> t \<notin> set (integerFamily @ floatFamily)))"
proof (cases "s = t")
  case True
  then show ?thesis by simp
next
  case False
  have one: "\<not> (s \<in> set (integerFamily @ floatFamily) \<and> t \<in> set (integerFamily @ floatFamily))"
  proof
    assume both: "s \<in> set (integerFamily @ floatFamily) \<and> t \<in> set (integerFamily @ floatFamily)"
    then have "map toUpper s = s" and "map toUpper t = t"
      using family_upper by blast+
    with assms have "s = t" by (simp add: sameUpToCase_def)
    with False show False by simp
  qed
  show ?thesis
  proof (cases "s \<in> set (integerFamily @ floatFamily)")
    case True
    with one have tn: "t \<notin> set (integerFamily @ floatFamily)" by blast
    from True have "targetKind (makeRow_switch s) \<noteq> Some NullableString"
      using numeric_kind_iff by blast
    moreover from tn have "targetKind (makeRow_switch t) = Some NullableString"
      using numeric_kind_iff by blast
    ultimately show ?thesis using True False by auto
  next
    case sn: False
    show ?thesis
    proof (cases "t \<in> set (integerFamily @ floatFamily)")
      case True
      then have "targetKind (makeRow_switch t) \<noteq> Some NullableString"
        using numeric_kind_iff by blast
      moreover from sn have "targetKind (makeRow_switch s) = Some NullableString"
        using numeric_kind_iff by blast
      ultimately show ?thesis using True \<open>s \<noteq> t\<close> by auto
    next
      case False
      with sn have "targetKind (makeRow_switch s) = Some NullableString"
        and "targetKind (makeRow_switch t) = Some NullableString"
        using numeric_kind_iff by blast+
      with sn False show ?thesis by simp
    qed
  qed
qed

theorem case_sensitive_dispatch_witness:
  "sameUpToCase ''VARCHAR'' ''varchar'' \<and>
   targetKind (makeRow_switch ''VARCHAR'') = targetKind (makeRow_switch ''varchar'') \<and>
   sameUpToCase ''Double'' ''DOUBLE'' \<and>
   targetKind (makeRow_switch ''Double'') \<noteq> targetKind (makeRow_switch ''DOUBLE'')"
proof -
  have a: "sameUpToCase ''VARCHAR'' ''varchar''" by (simp add: sameUpToCase_def toUpper_def)
  have b: "sameUpToCase ''Double'' ''DOUBLE''" by (simp add: sameUpToCase_def toUpper_def)
  show ?thesis
    using a b case_sensitive_dispatch [OF a] case_sensitive_dispatch [OF b]
    by (simp add: integerFamily_def floatFamily_def)
qed

section \<open>Properties of getRowValue\<close>

text \<open>
  \<open>getRowValue\<close> never consults the is-valid flag: for a pointer to a holder it records
  the holder's payload field whatever the flag is.
\<close>

lemma getRowValue_ignores_valid:
  "getRowValue (DPtr (DNullString \<lparr>ns_String = s, ns_Valid = b\<rparr>)) = DString s \<and>
   getRowValue (DPtr (DNullInt64 \<lparr>ni_Int64 = i, ni_Valid = b\<rparr>)) = DInt64 i \<and>
   getRowValue (DPtr (DNullFloat64 \<lparr>nf_Float64 = f, nf_Valid = b\<rparr>)) = DFloat64 f"
  by simp

section \<open>Properties of the row materializer and of the result walker\<close>

declare rowResultWalk_loop.simps [simp del]

lemma makeRow_loop_map:
  "makeRow_loop tm cols row = row @ map (\<lambda>v. makeRow_switch (index_typeMapping tm v)) cols"
  by (induction cols arbitrary: row) simp_all

lemma makeRow_map: "makeRow tm cols = map (\<lambda>v. makeRow_switch (index_typeMapping tm v)) cols"
  by (simp add: makeRow_def makeRow_loop_map)

lemma length_makeRow: "length (makeRow tm cols) = length cols"
  by (simp add: makeRow_map)

lemma scanDest_payload:
  "scanDest cv v dest = Inr d \<Longrightarrow> getRowValue d \<noteq> DNil \<and> targetKind d = targetKind dest"
  by (induction cv v dest rule: scanDest.induct) (auto split: if_splits sum.splits)

lemma scanDest_null:
  "scanDest cv DrvNil (makeRow_switch t) = Inr d \<Longrightarrow>
     getRowValue d =
       (if t \<in> set integerFamily then DInt64 0
        else if t \<in> set floatFamily then DFloat64 0
        else DString [])"
  by (auto simp add: makeRow_switch_cases split: if_splits)

lemma scanAll_payload:
  "scanAll cv vs dests = Inr ds \<Longrightarrow>
     length ds = length dests \<and> (\<forall>d\<in>set ds. getRowValue d \<noteq> DNil)"
proof (induction cv vs dests arbitrary: ds rule: scanAll.induct)
  case (2 cv v vs dest dests)
  then show ?case
    by (auto split: sum.splits dest: scanDest_payload)
qed simp_all

lemma scanAll_nth:
  "scanAll cv vs dests = Inr ds \<Longrightarrow> i < length dests \<Longrightarrow>
     scanDest cv (vs ! i) (dests ! i) = Inr (ds ! i)"
proof (induction cv vs dests arbitrary: ds i rule: scanAll.induct)
  case (2 cv v vs dest dests)
  from "2.prems"(1) obtain d ds' where d: "scanDest cv v dest = Inr d"
    and ds': "scanAll cv vs dests = Inr ds'" and ds: "ds = d # ds'"
    by (auto split: sum.splits)
  show ?case
  proof (cases i)
    case 0
    with d ds show ?thesis by simp
  next
    case (Suc j)
    with "2.prems"(2) have "j < length dests" by simp
    from "2.IH" [OF d ds' this] Suc ds show ?thesis by simp
  qed
qed simp_all

lemma Scan_payload:
  "Scan rs dests = Inr ds \<Longrightarrow>
     length ds = length dests \<and> (\<forall>d\<in>set ds. getRowValue d \<noteq> DNil)"
  by (auto simp add: Scan_def split: option.splits if_splits dest: scanAll_payload)

lemma Scan_scanAll:
  "Scan rs dests = Inr ds \<Longrightarrow>
     \<exists>vals. rows_lastcols rs = Some vals \<and> length vals = length dests \<and>
            scanAll (rows_convert rs) vals dests = Inr ds"
  by (auto simp add: Scan_def split: option.splits if_splits)

lemma getResultantRow_loop_eq:
  "count + length row \<le> length cols \<Longrightarrow>
     getResultantRow_loop cols row count resultRow =
       Inr (resultRow ++ map_of (rev (zip (drop count cols) (map getRowValue row))))"
proof (induction row arbitrary: count resultRow)
  case Nil
  then show ?case by simp
next
  case (Cons v row)
  from Cons.prems have lt: "count < length cols" and le: "Suc count + length row \<le> length cols"
    by simp_all
  have dr: "drop count cols = cols ! count # drop (Suc count) cols"
    using lt by (simp add: Cons_nth_drop_Suc)
  have "getResultantRow_loop cols (v # row) count resultRow =
        getResultantRow_loop cols row (Suc count) (resultRow(cols ! count \<mapsto> getRowValue v))"
    using lt by simp
  also have "\<dots> = Inr (resultRow(cols ! count \<mapsto> getRowValue v) ++
                        map_of (rev (zip (drop (Suc count) cols) (map getRowValue row))))"
    by (rule Cons.IH [OF le])
  also have "resultRow(cols ! count \<mapsto> getRowValue v) ++
               map_of (rev (zip (drop (Suc count) cols) (map getRowValue row))) =
             resultRow ++ map_of (rev (zip (drop count cols) (map getRowValue (v # row))))"
    unfolding dr by (simp add: map_add_def fun_eq_iff split: option.splits)
  finally show ?case .
qed

lemma map_of_rev_zip_last:
  "i < length ks \<Longrightarrow> length vs = length ks \<Longrightarrow> ks ! i \<notin> set (drop (Suc i) ks) \<Longrightarrow>
     map_of (rev (zip ks vs)) (ks ! i) = Some (vs ! i)"
proof (induction ks arbitrary: i vs)
  case Nil
  then show ?case by simp
next
  case (Cons k ks)
  from Cons.prems(2) obtain v vs' where vs: "vs = v # vs'" and len: "length vs' = length ks"
    by (cases vs) simp_all
  show ?case
  proof (cases i)
    case 0
    with Cons.prems(3) have "k \<notin> set ks" by simp
    then have "k \<notin> fst ` set (rev (zip ks vs'))"
      by (auto dest: set_zip_leftD)
    then have "map_of (rev (zip ks vs')) k = None"
      by (simp add: map_of_eq_None_iff)
    with 0 vs show ?thesis by (simp add: map_add_def)
  next
    case (Suc j)
    with Cons.prems have "j < length ks" and "ks ! j \<notin> set (drop (Suc j) ks)" by simp_all
    from Cons.IH [OF this(1) len this(2)] Suc vs show ?thesis
      by (simp add: map_add_def)
  qed
qed

lemma getResultantRow_loop_dom:
  "count + length row \<le> length cols \<Longrightarrow>
     \<exists>m. getResultantRow_loop cols row count resultRow = Inr m \<and>
         dom m = dom resultRow \<union> set (take (length row) (drop count cols)) \<and>
         ran m \<subseteq> ran resultRow \<union> getRowValue ` set row"
proof (induction row arbitrary: count resultRow)
  case Nil
  then show ?case by simp
next
  case (Cons v row)
  from Cons.prems have lt: "count < length cols" and le: "Suc count + length row \<le> length cols"
    by simp_all
  from Cons.IH [OF le, of "resultRow(cols ! count \<mapsto> getRowValue v)"]
  obtain m where m: "getResultantRow_loop cols row (Suc count) (resultRow(cols ! count \<mapsto> getRowValue v)) = Inr m"
    and d: "dom m = dom (resultRow(cols ! count \<mapsto> getRowValue v)) \<union> set (take (length row) (drop (Suc count) cols))"
    and r: "ran m \<subseteq> ran (resultRow(cols ! count \<mapsto> getRowValue v)) \<union> getRowValue ` set row"
    by blast
  have dr: "drop count cols = cols ! count # drop (Suc count) cols"
    using lt by (simp add: Cons_nth_drop_Suc)
  have rr: "ran (resultRow(cols ! count \<mapsto> getRowValue v)) \<subseteq> ran resultRow \<union> {getRowValue v}"
    by (auto simp add: ran_def split: if_splits)
  show ?case
    using lt m d r rr dr by auto
qed

lemma getResultantRow_keys:
  assumes "getResultantRow cols tm rs = Inr m"
  shows "dom m = set cols \<and> DNil \<notin> ran m"
proof -
  from assms obtain row where sc: "Scan rs (makeRow tm cols) = Inr row"
    and lp: "getResultantRow_loop cols row 0 Map.empty = Inr m"
    by (auto simp add: getResultantRow_def split: sum.splits)
  from Scan_payload [OF sc] have len: "length row = length cols"
    and nn: "\<forall>d\<in>set row. getRowValue d \<noteq> DNil"
    by (simp_all add: length_makeRow)
  from len have "0 + length row \<le> length cols" by simp
  from getResultantRow_loop_dom [OF this, of Map.empty] lp
  have "dom m = set (take (length row) (drop 0 cols))" and "ran m \<subseteq> getRowValue ` set row"
    by auto
  moreover from nn have "DNil \<notin> getRowValue ` set row" by force
  ultimately show ?thesis using len by auto
qed

lemma getResultantRow_null:
  assumes "getResultantRow cols tm c = Inr m"
    and "rows_lastcols c = Some vals"
    and "i < length cols"
    and "vals ! i = DrvNil"
    and "cols ! i \<notin> set (drop (Suc i) cols)"
  shows "m (cols ! i) =
           Some (if index_typeMapping tm (cols ! i) \<in> set integerFamily then DInt64 0
                 else if index_typeMapping tm (cols ! i) \<in> set floatFamily then DFloat64 0
                 else DString [])"
proof -
  from assms(1) obtain row where sc: "Scan c (makeRow tm cols) = Inr row"
    and lp: "getResultantRow_loop cols row 0 Map.empty = Inr m"
    by (auto simp add: getResultantRow_def split: sum.splits)
  from Scan_scanAll [OF sc] assms(2)
  have sa: "scanAll (rows_convert c) vals (makeRow tm cols) = Inr row" by auto
  from Scan_payload [OF sc] have len: "length row = length cols"
    by (simp add: length_makeRow)
  from assms(3) have i': "i < length (makeRow tm cols)" by (simp add: length_makeRow)
  from scanAll_nth [OF sa i'] assms(3,4)
  have "scanDest (rows_convert c) DrvNil (makeRow_switch (index_typeMapping tm (cols ! i))) = Inr (row ! i)"
    by (simp add: makeRow_map)
  from scanDest_null [OF this]
  have z: "getRowValue (row ! i) =
             (if index_typeMapping tm (cols ! i) \<in> set integerFamily then DInt64 0
              else if index_typeMapping tm (cols ! i) \<in> set floatFamily then DFloat64 0
              else DString [])" .
  from len have "0 + length row \<le> length cols" by simp
  from getResultantRow_loop_eq [OF this, of Map.empty] lp
  have m: "m = map_of (rev (zip cols (map getRowValue row)))" by simp
  have "map_of (rev (zip cols (map getRowValue row))) (cols ! i) = Some (map getRowValue row ! i)"
    using assms(3,5) len by (intro map_of_rev_zip_last) simp_all
  with m z assms(3) len show ?thesis by simp
qed

lemma getResultantRow_error:
  assumes "getResultantRow cols tm rs = Inl e"
  shows "Scan rs (makeRow tm cols) = Inl e"
proof (cases "Scan rs (makeRow tm cols)")
  case (Inl a)
  with assms show ?thesis by (simp add: getResultantRow_def)
next
  case (Inr row)
  from Scan_payload [OF Inr] have "0 + length row \<le> length cols"
    by (simp add: length_makeRow)
  from getResultantRow_loop_dom [OF this, of Map.empty]
  obtain m where "getResultantRow_loop cols row 0 Map.empty = Inr m" by blast
  with Inr assms show ?thesis by (simp add: getResultantRow_def)
qed


lemma rowResultWalk_loop_Nil:
  "\<not> rows_closed rs \<Longrightarrow> rows_pending rs = [] \<Longrightarrow>
     rowResultWalk_loop rs cols tm result =
       (rs\<lparr>rows_closed := True, rows_lasterr := rows_fault rs\<rparr>, Inr result)"
  by (subst rowResultWalk_loop.simps) (simp add: Next_def)

lemma rowResultWalk_loop_Cons:
  "\<not> rows_closed rs \<Longrightarrow> rows_pending rs = r # rest \<Longrightarrow>
     rowResultWalk_loop rs cols tm result =
       (case getResultantRow cols tm (rs\<lparr>rows_pending := rest, rows_lastcols := Some r\<rparr>) of
          Inl err \<Rightarrow> (rs\<lparr>rows_pending := rest, rows_lastcols := Some r\<rparr>, Inl err)
        | Inr resultRow \<Rightarrow>
            rowResultWalk_loop (rs\<lparr>rows_pending := rest, rows_lastcols := Some r\<rparr>) cols tm
              (result @ [resultRow]))"
  by (subst rowResultWalk_loop.simps) (simp add: Next_def split: sum.splits)



lemma getResultantRow_positioned:
  "rows_lastcols a = rows_lastcols b \<Longrightarrow> rows_convert a = rows_convert b \<Longrightarrow>
   rows_closed a = rows_closed b \<Longrightarrow> rows_lasterr a = rows_lasterr b \<Longrightarrow>
     getResultantRow cols tm a = getResultantRow cols tm b"
  unfolding getResultantRow_def Scan_def
  by (cases "rows_lastcols b"; cases "rows_lasterr b") simp_all

lemma rowResultWalk_loop_row_error:
  assumes "rows_pending rs = pre @ bad # post"
    and "\<not> rows_closed rs"
    and "rows_convert rs = rows_convert rs0 \<and> rows_closed rs = rows_closed rs0 \<and>
         rows_lasterr rs = rows_lasterr rs0"
    and "\<forall>r\<in>set pre. \<exists>m. getResultantRow cols tm (rs0\<lparr>rows_lastcols := Some r\<rparr>) = Inr m"
    and "getResultantRow cols tm (rs0\<lparr>rows_lastcols := Some bad\<rparr>) = Inl e"
  shows "snd (rowResultWalk_loop rs cols tm result) = Inl e"
  using assms
proof (induction pre arbitrary: rs result)
  case Nil
  then have p: "rows_pending rs = bad # post" by simp
  have "getResultantRow cols tm (rs\<lparr>rows_pending := post, rows_lastcols := Some bad\<rparr>)
          = getResultantRow cols tm (rs0\<lparr>rows_lastcols := Some bad\<rparr>)"
    using Nil.prems(3) by (intro getResultantRow_positioned) simp_all
  with Nil.prems(5) show ?case
    by (simp add: rowResultWalk_loop_Cons [OF Nil.prems(2) p])
next
  case (Cons r pre)
  then have p: "rows_pending rs = r # (pre @ bad # post)" by simp
  let ?rs' = "rs\<lparr>rows_pending := pre @ bad # post, rows_lastcols := Some r\<rparr>"
  have "getResultantRow cols tm ?rs' = getResultantRow cols tm (rs0\<lparr>rows_lastcols := Some r\<rparr>)"
    using Cons.prems(3) by (intro getResultantRow_positioned) simp_all
  with Cons.prems(4) obtain m where m: "getResultantRow cols tm ?rs' = Inr m"
    by auto
  have "snd (rowResultWalk_loop ?rs' cols tm (result @ [m])) = Inl e"
    using Cons.prems by (intro Cons.IH) simp_all
  with m show ?case
    by (simp add: rowResultWalk_loop_Cons [OF Cons.prems(2) p])
qed

lemma rowResultWalk_row_error:
  assumes "snd (rowResultWalk_loop rs cols tm []) = Inl e"
  shows "snd (rowResultWalk rs cols tm) = Inl e"
proof -
  obtain rs' where "rowResultWalk_loop rs cols tm [] = (rs', Inl e)"
    using assms by (cases "rowResultWalk_loop rs cols tm []") simp
  then show ?thesis by (simp add: rowResultWalk_def)
qed

lemma rowResultWalk_loop_success:
  assumes "snd (rowResultWalk_loop rs cols tm acc) = Inr result"
    and "\<not> rows_closed rs"
    and "rows_convert rs = rows_convert rs0 \<and> rows_closed rs = rows_closed rs0 \<and>
         rows_lasterr rs = rows_lasterr rs0"
  shows "\<exists>new. result = acc @ new \<and>
           list_all2 (\<lambda>r m. getResultantRow cols tm (rs0\<lparr>rows_lastcols := Some r\<rparr>) = Inr m)
             (rows_pending rs) new"
  using assms
proof (induction "rows_pending rs" arbitrary: rs acc)
  case Nil
  then show ?case by (simp add: rowResultWalk_loop_Nil)
next
  case (Cons r rest)
  from Cons(2) have p: "rows_pending rs = r # rest" by simp
  let ?c = "rs\<lparr>rows_pending := rest, rows_lastcols := Some r\<rparr>"
  have pos: "getResultantRow cols tm ?c = getResultantRow cols tm (rs0\<lparr>rows_lastcols := Some r\<rparr>)"
    using Cons.prems(3) by (intro getResultantRow_positioned) simp_all
  from Cons.prems(1) obtain m where m: "getResultantRow cols tm ?c = Inr m"
    and rec: "snd (rowResultWalk_loop ?c cols tm (acc @ [m])) = Inr result"
    by (cases "getResultantRow cols tm ?c")
       (simp_all add: rowResultWalk_loop_Cons [OF Cons.prems(2) p])
  have "\<exists>new. result = (acc @ [m]) @ new \<and>
           list_all2 (\<lambda>r m. getResultantRow cols tm (rs0\<lparr>rows_lastcols := Some r\<rparr>) = Inr m)
             (rows_pending ?c) new"
    using rec Cons.prems(2,3) by (intro Cons(1)) simp_all
  then obtain new where "result = acc @ m # new"
    and "list_all2 (\<lambda>r m. getResultantRow cols tm (rs0\<lparr>rows_lastcols := Some r\<rparr>) = Inr m) rest new"
    by auto
  with m pos p show ?case by (intro exI [of _ "m # new"]) simp
qed

lemma Columns_open: "Columns rs = Inr cols \<Longrightarrow> \<not> rows_closed rs"
  by (auto simp add: Columns_def split: if_splits)

lemma parseRowResults_rows:
  assumes "Columns rs = Inr cols"
    and "ColumnTypes rs = Inr colTypes"
    and "snd (parseRowResults rs) = Inr result"
  shows "list_all2
           (\<lambda>r m. getResultantRow cols (mapColTypes colTypes) (rs\<lparr>rows_lastcols := Some r\<rparr>) = Inr m)
           (rows_pending rs) result"
proof -
  from assms have w: "snd (rowResultWalk rs cols (mapColTypes colTypes)) = Inr result"
    by (simp add: parseRowResults_def getTypeMapping_def)
  obtain rs' res where l: "rowResultWalk_loop rs cols (mapColTypes colTypes) [] = (rs', res)"
    by (cases "rowResultWalk_loop rs cols (mapColTypes colTypes) []")
  with w have "res = Inr result"
    by (auto simp add: rowResultWalk_def split: sum.splits option.splits)
  with l have "snd (rowResultWalk_loop rs cols (mapColTypes colTypes) []) = Inr result" by simp
  from rowResultWalk_loop_success [OF this Columns_open [OF assms(1)], of rs]
  show ?thesis by simp
qed


text \<open>Evaluation of the sample inputs.\<close>

lemma sample_conv_simps:
  "toString sample_converter (DrvBytes s) = Inr s"
  "toFloat64 sample_converter (DrvFloat64 f) = Inr f"
  "toInt64 sample_converter (DrvInt64 i) = Inr i"
  "toFloat64 sample_converter (DrvBytes s) = Inl (Error ''sql: Scan error: converting to float64'')"
  by (simp_all add: sample_converter_def)

lemma widgets_typeMapping:
  "makeRow (mapColTypes [(''sku'', ''VARCHAR''), (''weight'', ''FLOAT'')]) [''sku'', ''weight'']
     = [DPtr (DNullString zeroNullString), DPtr (DNullFloat64 zeroNullFloat64)]"
  by (simp add: makeRow_def mapColTypes_def index_typeMapping_def makeRow_switch_def)

lemmas widgets_eval =
  parseRowResults_def getTypeMapping_def Columns_def ColumnTypes_def rowResultWalk_def
  rowResultWalk_loop_Cons rowResultWalk_loop_Nil getResultantRow_def Scan_def Err_def Close_def
  widgets_cursor_def widgets_typeMapping sample_conv_simps

lemma widgets_null_weight:
  "snd (parseRowResults (widgets_cursor [[DrvBytes ''WIDG9'', DrvNil]] None)) =
     Inr [[''sku'' \<mapsto> DString ''WIDG9'', ''weight'' \<mapsto> DFloat64 0]]"
  by (simp add: widgets_eval zeroNullString_def zeroNullFloat64_def)

lemma widgets_null_sku:
  "snd (parseRowResults (widgets_cursor [[DrvNil, DrvFloat64 0x3FF3AE147AE147AE]] None)) =
     Inr [[''sku'' \<mapsto> DString [], ''weight'' \<mapsto> DFloat64 0x3FF3AE147AE147AE]]"
  by (simp add: widgets_eval zeroNullString_def zeroNullFloat64_def)

lemma widgets_empty:
  "snd (parseRowResults (widgets_cursor [] None)) = Inr []"
  by (simp add: widgets_eval)

lemma widgets_Columns:
  "Columns (widgets_cursor rows fault) = Inr [''sku'', ''weight'']"
  "ColumnTypes (widgets_cursor rows fault) = Inr [(''sku'', ''VARCHAR''), (''weight'', ''FLOAT'')]"
  by (simp_all add: Columns_def ColumnTypes_def widgets_cursor_def)

text \<open>
  Two columns of the same name share one key; the later column's value is the one recorded.
\<close>

lemma repeated_column_name:
  "snd (parseRowResults ((widgets_cursor [[DrvNil, DrvBytes ''x'']] None)
         \<lparr>rows_columns := [''a'', ''a''],
          rows_columnTypes := [(''a'', ''VARCHAR''), (''a'', ''VARCHAR'')]\<rparr>)) =
     Inr [[''a'' \<mapsto> DString ''x'']]"
  by (simp add: parseRowResults_def getTypeMapping_def Columns_def ColumnTypes_def rowResultWalk_def
      rowResultWalk_loop_Cons rowResultWalk_loop_Nil getResultantRow_def Scan_def Err_def Close_def
      widgets_cursor_def sample_conv_simps makeRow_def mapColTypes_def index_typeMapping_def
      makeRow_switch_def zeroNullString_def)

lemma sample_QueryRaw:
  "QueryRaw (sample_Database rows) query (Some args) = snd (parseRowResults (widgets_cursor rows None))"
  by (simp add: QueryRaw_def getRowResult_def getRows_def sample_Database_def sample_DB_def)

lemma sample_connection:
  "connection (sample_Database rows) = Some (sample_DB rows)"
  "db_Query (sample_DB rows) query args = Inr (widgets_cursor rows None)"
  by (simp_all add: sample_Database_def sample_DB_def)

text \<open>
  C1, as stated, fails: for a row whose \<open>sku\<close> is database-null the generic record maps
  \<open>sku\<close> to the empty string, the payload that \<open>Scan\<close> leaves in the holder whose
  is-valid flag is false; it does not map it to nil, and the key is not absent.
\<close>

theorem null_value_counterexample:
  "snd (parseRowResults (widgets_cursor [[DrvNil, DrvFloat64 0x3FF3AE147AE147AE]] None)) =
     Inr [[''sku'' \<mapsto> DString [], ''weight'' \<mapsto> DFloat64 0x3FF3AE147AE147AE]] \<and>
   [''sku'' \<mapsto> DString [], ''weight'' \<mapsto> DFloat64 0x3FF3AE147AE147AE] ''sku'' = Some (DString []) \<and>
   [''sku'' \<mapsto> DString [], ''weight'' \<mapsto> DFloat64 0x3FF3AE147AE147AE] ''sku'' \<noteq> Some DNil \<and>
   [''sku'' \<mapsto> DString [], ''weight'' \<mapsto> DFloat64 0x3FF3AE147AE147AE] ''sku'' \<noteq> None \<and>
   getRowValue (DPtr (DNullString \<lparr>ns_String = [], ns_Valid = False\<rparr>)) = DString []"
  using widgets_null_sku by simp

text \<open>
  C1, amended. For every row of a successful walk and every column whose value in that row
  is database-null, the generic record of the row maps the column's name to the zero value
  of the kind the type resolver gives the column (0, 0.0 or the empty string), provided no
  later column has the same name (the later column's value would overwrite it).
  \<open>getRowValue\<close> records the payload of a holder whatever its is-valid flag is.
\<close>

theorem null_value_is_zero_value:
  assumes "Columns rs = Inr cols"
    and "ColumnTypes rs = Inr colTypes"
    and "snd (parseRowResults rs) = Inr result"
    and "k < length (rows_pending rs)"
    and "i < length cols"
    and "rows_pending rs ! k ! i = DrvNil"
    and "cols ! i \<notin> set (drop (Suc i) cols)"
  shows "k < length result \<and>
         (result ! k) (cols ! i) =
           Some (if index_typeMapping (mapColTypes colTypes) (cols ! i) \<in> set integerFamily
                 then DInt64 0
                 else if index_typeMapping (mapColTypes colTypes) (cols ! i) \<in> set floatFamily
                 then DFloat64 0
                 else DString []) \<and>
         getRowValue (DPtr (DNullString \<lparr>ns_String = s, ns_Valid = b\<rparr>)) = DString s \<and>
         getRowValue (DPtr (DNullInt64 \<lparr>ni_Int64 = n, ni_Valid = b\<rparr>)) = DInt64 n \<and>
         getRowValue (DPtr (DNullFloat64 \<lparr>nf_Float64 = f, nf_Valid = b\<rparr>)) = DFloat64 f"
proof -
  note all = parseRowResults_rows [OF assms(1,2,3)]
  from all assms(4) have len: "k < length result"
    by (simp add: list_all2_lengthD)
  from list_all2_nthD [OF all assms(4)] have
    "getResultantRow cols (mapColTypes colTypes) (rs\<lparr>rows_lastcols := Some (rows_pending rs ! k)\<rparr>)
       = Inr (result ! k)"
    by simp
  from getResultantRow_null [OF this _ assms(5,6,7)] len show ?thesis by simp
qed

theorem null_value_is_zero_value_witness:
  "[''sku'' \<mapsto> DString [], ''weight'' \<mapsto> DFloat64 0x3FF3AE147AE147AE] ''sku'' = Some (DString [])"
proof -
  let ?rs = "widgets_cursor [[DrvNil, DrvFloat64 0x3FF3AE147AE147AE]] None"
  have k: "0 < length (rows_pending ?rs)" by (simp add: widgets_cursor_def)
  have i: "0 < length [''sku'', ''weight'']" by simp
  have n: "rows_pending ?rs ! 0 ! 0 = DrvNil" by (simp add: widgets_cursor_def)
  have l: "[''sku'', ''weight''] ! 0 \<notin> set (drop (Suc 0) [''sku'', ''weight''])" by simp
  from null_value_is_zero_value [OF widgets_Columns(1) widgets_Columns(2) widgets_null_sku k i n l]
  show ?thesis
    by (simp add: mapColTypes_def index_typeMapping_def integerFamily_def floatFamily_def)
qed

text \<open>
  C5. If the rows before some row all materialize and that row's materialization fails
  with an error, the whole walk returns that error and no result sequence: the rows
  collected before the failure are not returned.
\<close>

theorem row_error_discards_result:
  assumes "Columns rs = Inr cols"
    and "ColumnTypes rs = Inr colTypes"
    and "rows_pending rs = pre @ bad # post"
    and "\<forall>r\<in>set pre. \<exists>m.
           getResultantRow cols (mapColTypes colTypes) (rs\<lparr>rows_lastcols := Some r\<rparr>) = Inr m"
    and "getResultantRow cols (mapColTypes colTypes) (rs\<lparr>rows_lastcols := Some bad\<rparr>) = Inl e"
  shows "snd (parseRowResults rs) = Inl e"
proof -
  have "snd (rowResultWalk_loop rs cols (mapColTypes colTypes) []) = Inl e"
    using assms(3) Columns_open [OF assms(1)] _ assms(4) assms(5)
    by (rule rowResultWalk_loop_row_error) simp
  then have "snd (rowResultWalk rs cols (mapColTypes colTypes)) = Inl e"
    by (rule rowResultWalk_row_error)
  with assms(1,2) show ?thesis
    by (simp add: parseRowResults_def getTypeMapping_def)
qed

theorem row_error_discards_result_witness:
  "snd (parseRowResults (widgets_cursor
      [[DrvBytes ''WIDG1'', DrvFloat64 0x40289999999999A0], [DrvBytes ''WIDG2'', DrvBytes ''heavy''],
       [DrvBytes ''WIDG3'', DrvFloat64 0]] None))
     = Inl (Error ''sql: Scan error: converting to float64'')"
proof -
  let ?rs = "widgets_cursor
      [[DrvBytes ''WIDG1'', DrvFloat64 0x40289999999999A0], [DrvBytes ''WIDG2'', DrvBytes ''heavy''],
       [DrvBytes ''WIDG3'', DrvFloat64 0]] None"
  have c: "rows_pending ?rs = [[DrvBytes ''WIDG1'', DrvFloat64 0x40289999999999A0]] @
             [DrvBytes ''WIDG2'', DrvBytes ''heavy''] # [[DrvBytes ''WIDG3'', DrvFloat64 0]]"
    by (simp add: widgets_cursor_def)
  have d: "\<forall>r\<in>set [[DrvBytes ''WIDG1'', DrvFloat64 0x40289999999999A0]]. \<exists>m.
      getResultantRow [''sku'', ''weight''] (mapColTypes [(''sku'', ''VARCHAR''), (''weight'', ''FLOAT'')])
        (?rs\<lparr>rows_lastcols := Some r\<rparr>) = Inr m"
    by (simp add: getResultantRow_def widgets_typeMapping Scan_def widgets_cursor_def
        sample_conv_simps)
  have e: "getResultantRow [''sku'', ''weight''] (mapColTypes [(''sku'', ''VARCHAR''), (''weight'', ''FLOAT'')])
        (?rs\<lparr>rows_lastcols := Some [DrvBytes ''WIDG2'', DrvBytes ''heavy'']\<rparr>)
        = Inl (Error ''sql: Scan error: converting to float64'')"
    by (simp add: getResultantRow_def widgets_typeMapping Scan_def widgets_cursor_def
        sample_conv_simps)
  show ?thesis
    by (rule row_error_discards_result [OF widgets_Columns(1) widgets_Columns(2) c d e])
qed

text \<open>
  C6, as stated, fails in its parenthesis: for a row whose weight is database-null the
  record has the key \<open>weight\<close>, and the value under it is the float 0, not nil.
\<close>

theorem null_column_counterexample:
  "snd (parseRowResults (widgets_cursor [[DrvBytes ''WIDG9'', DrvNil]] None)) =
     Inr [[''sku'' \<mapsto> DString ''WIDG9'', ''weight'' \<mapsto> DFloat64 0]] \<and>
   [''sku'' \<mapsto> DString ''WIDG9'', ''weight'' \<mapsto> DFloat64 0] ''weight'' \<noteq> Some DNil"
  using widgets_null_weight by simp

text \<open>
  C6, amended. A successful walk returns one generic record per row of the cursor. The
  keys of each record are exactly the column names of the cursor's \<open>Columns\<close>; this
  includes the rows with database nulls. No value of a record is nil: under the name of a
  database-null column the record holds the zero payload of the column's scan target
  (0, 0.0 or the empty string), unless a later column of the same name overwrites it.
\<close>

theorem every_column_is_a_key:
  assumes "Columns rs = Inr cols"
    and "ColumnTypes rs = Inr colTypes"
    and "snd (parseRowResults rs) = Inr result"
    and "k < length (rows_pending rs)"
  shows "length result = length (rows_pending rs) \<and>
         dom (result ! k) = set cols \<and>
         DNil \<notin> ran (result ! k) \<and>
         (\<forall>i<length cols.
            rows_pending rs ! k ! i = DrvNil \<and> cols ! i \<notin> set (drop (Suc i) cols) \<longrightarrow>
            (result ! k) (cols ! i) =
              Some (if index_typeMapping (mapColTypes colTypes) (cols ! i) \<in> set integerFamily
                    then DInt64 0
                    else if index_typeMapping (mapColTypes colTypes) (cols ! i) \<in> set floatFamily
                    then DFloat64 0
                    else DString []))"
proof -
  note all = parseRowResults_rows [OF assms(1,2,3)]
  from all have len: "length result = length (rows_pending rs)"
    by (simp add: list_all2_lengthD)
  from list_all2_nthD [OF all assms(4)] have g:
    "getResultantRow cols (mapColTypes colTypes) (rs\<lparr>rows_lastcols := Some (rows_pending rs ! k)\<rparr>)
       = Inr (result ! k)"
    by simp
  from getResultantRow_keys [OF g] have keys: "dom (result ! k) = set cols \<and> DNil \<notin> ran (result ! k)" .
  have "\<forall>i<length cols.
            rows_pending rs ! k ! i = DrvNil \<and> cols ! i \<notin> set (drop (Suc i) cols) \<longrightarrow>
            (result ! k) (cols ! i) =
              Some (if index_typeMapping (mapColTypes colTypes) (cols ! i) \<in> set integerFamily
                    then DInt64 0
                    else if index_typeMapping (mapColTypes colTypes) (cols ! i) \<in> set floatFamily
                    then DFloat64 0
                    else DString [])"
    using getResultantRow_null [OF g] by simp
  with len keys show ?thesis by blast
qed

theorem every_column_is_a_key_witness:
  "dom [''sku'' \<mapsto> DString ''WIDG9'', ''weight'' \<mapsto> DFloat64 0] = set [''sku'', ''weight''] \<and>
   DNil \<notin> ran [''sku'' \<mapsto> DString ''WIDG9'', ''weight'' \<mapsto> DFloat64 0] \<and>
   [''sku'' \<mapsto> DString ''WIDG9'', ''weight'' \<mapsto> DFloat64 0] ''weight'' = Some (DFloat64 0)"
proof -
  let ?rs = "widgets_cursor [[DrvBytes ''WIDG9'', DrvNil]] None"
  have k: "0 < length (rows_pending ?rs)" by (simp add: widgets_cursor_def)
  have n: "rows_pending ?rs ! 0 ! 1 = DrvNil" by (simp add: widgets_cursor_def)
  from every_column_is_a_key [OF widgets_Columns(1) widgets_Columns(2) widgets_null_weight k]
  have keys: "dom ([[''sku'' \<mapsto> DString ''WIDG9'', ''weight'' \<mapsto> DFloat64 0]] ! 0) = set [''sku'', ''weight'']"
    and nn: "DNil \<notin> ran ([[''sku'' \<mapsto> DString ''WIDG9'', ''weight'' \<mapsto> DFloat64 0]] ! 0)"
    and z: "\<forall>i<length [''sku'', ''weight''].
            rows_pending ?rs ! 0 ! i = DrvNil \<and>
            [''sku'', ''weight''] ! i \<notin> set (drop (Suc i) [''sku'', ''weight'']) \<longrightarrow>
            ([[''sku'' \<mapsto> DString ''WIDG9'', ''weight'' \<mapsto> DFloat64 0]] ! 0) ([''sku'', ''weight''] ! i) =
              Some (if index_typeMapping (mapColTypes [(''sku'', ''VARCHAR''), (''weight'', ''FLOAT'')])
                         ([''sku'', ''weight''] ! i) \<in> set integerFamily
                    then DInt64 0
                    else if index_typeMapping (mapColTypes [(''sku'', ''VARCHAR''), (''weight'', ''FLOAT'')])
                         ([''sku'', ''weight''] ! i) \<in> set floatFamily
                    then DFloat64 0
                    else DString [])"
    by blast+
  from z [rule_format, of 1] n
  have "[''sku'' \<mapsto> DString ''WIDG9'', ''weight'' \<mapsto> DFloat64 0] ''weight'' = Some (DFloat64 0)"
    by simp
  with keys nn show ?thesis by simp
qed




section \<open>Properties of the single-row lookups\<close>

text \<open>
  C8, as stated, fails for the older variant of \<open>Row\<close> and \<open>RowByStringField\<close>: when
  the query succeeds with zero rows they return the \<open>*sql.Row\<close> handle of \<open>QueryRow\<close>,
  not a \<open>no result\<close> error.
\<close>

theorem sqlRow_variant_counterexample:
  "QueryRaw (sample_Database []) ''select sku, weight from widgets where id = ?'' (Some [DInt64 7])
     = Inr [] \<and>
   Row_sqlRow (sample_Database []) ''select sku, weight from widgets where id = ?'' 7
     = Inr (SqlRow (Inr (widgets_cursor [] None))) \<and>
   Row_sqlRow (sample_Database []) ''select sku, weight from widgets where id = ?'' 7
     \<noteq> Inl (Error ''no result'') \<and>
   RowByStringField_sqlRow (sample_Database []) ''select sku, weight from widgets where sku = ?'' ''WIDG0''
     = Inr (SqlRow (Inr (widgets_cursor [] None)))"
  by (simp add: sample_QueryRaw widgets_empty Row_sqlRow_def RowByStringField_sqlRow_def QueryRow_def
      sample_connection)


text \<open>
  C8, amended. In the variant that returns a generic record: when the query of a single-row
  lookup succeeds with zero rows, \<open>Row\<close> and \<open>RowByStringField\<close> return the error
  \<open>no result\<close> and no record; when it succeeds with at least one row they return the
  first row's record and no error. In the older variant both return the handle of
  \<open>QueryRow\<close>, which holds the answer of the query, and no error of their own.
\<close>

theorem single_row_lookup:
  "(QueryRaw d query (Some [DInt64 ident]) = Inr [] \<longrightarrow>
      Row d query ident = Inl (Error ''no result'')) \<and>
   (QueryRaw d query (Some [DInt64 ident]) = Inr (r # rest) \<longrightarrow> Row d query ident = Inr r) \<and>
   (QueryRaw d query (Some [DString field]) = Inr [] \<longrightarrow>
      RowByStringField d query field = Inl (Error ''no result'')) \<and>
   (QueryRaw d query (Some [DString field]) = Inr (r # rest) \<longrightarrow>
      RowByStringField d query field = Inr r) \<and>
   (connection d = Some conn \<longrightarrow>
      Row_sqlRow d query ident = Inr (SqlRow (db_Query conn query [DInt64 ident])) \<and>
      RowByStringField_sqlRow d query field = Inr (SqlRow (db_Query conn query [DString field])))"
  by (simp add: Row_def RowByStringField_def Row_sqlRow_def RowByStringField_sqlRow_def QueryRow_def)

theorem single_row_lookup_witness:
  "Row (sample_Database []) ''select sku, weight from widgets where id = ?'' 7
     = Inl (Error ''no result'') \<and>
   Row (sample_Database [[DrvBytes ''WIDG9'', DrvNil]]) ''select sku, weight from widgets where id = ?'' 2
     = Inr [''sku'' \<mapsto> DString ''WIDG9'', ''weight'' \<mapsto> DFloat64 0] \<and>
   RowByStringField (sample_Database []) ''select sku, weight from widgets where sku = ?'' ''WIDG0''
     = Inl (Error ''no result'') \<and>
   RowByStringField (sample_Database [[DrvBytes ''WIDG9'', DrvNil]])
       ''select sku, weight from widgets where sku = ?'' ''WIDG9''
     = Inr [''sku'' \<mapsto> DString ''WIDG9'', ''weight'' \<mapsto> DFloat64 0] \<and>
   Row_sqlRow (sample_Database [[DrvBytes ''WIDG9'', DrvNil]])
       ''select sku, weight from widgets where id = ?'' 2
     = Inr (SqlRow (Inr (widgets_cursor [[DrvBytes ''WIDG9'', DrvNil]] None)))"
  using single_row_lookup [where d = "sample_Database []"
      and query = "''select sku, weight from widgets where id = ?''" and ident = 7]
    single_row_lookup [where d = "sample_Database [[DrvBytes ''WIDG9'', DrvNil]]"
      and query = "''select sku, weight from widgets where id = ?''" and ident = 2
      and r = "[''sku'' \<mapsto> DString ''WIDG9'', ''weight'' \<mapsto> DFloat64 0]" and rest = "[]"
      and conn = "sample_DB [[DrvBytes ''WIDG9'', DrvNil]]"]
    single_row_lookup [where d = "sample_Database []"
      and query = "''select sku, weight from widgets where sku = ?''" and field = "''WIDG0''"]
    single_row_lookup [where d = "sample_Database [[DrvBytes ''WIDG9'', DrvNil]]"
      and query = "''select sku, weight from widgets where sku = ?''" and field = "''WIDG9''"
      and r = "[''sku'' \<mapsto> DString ''WIDG9'', ''weight'' \<mapsto> DFloat64 0]" and rest = "[]"]
  by (simp add: sample_QueryRaw widgets_null_weight widgets_empty sample_connection)



section \<open>Properties of the configs\<close>

lemma setDBConfig_frame:
  "connection (setDBConfig k v d) = connection d \<and> Schemaless (setDBConfig k v d) = Schemaless d"
  by (simp add: setDBConfig_def)


lemma supplementConfigs_loop_Cons:
  "supplementConfigs_loop sl ((k, v) # kvs) d =
     supplementConfigs_loop sl kvs (if k = ''database'' \<and> sl then d else setDBConfig k v d)"
  by simp

lemma step_Host:
  "Host (configs (if k = ''database'' \<and> sl then d else setDBConfig k v d)) =
     (if k = ''host'' \<and> Host (configs d) = [] then v else Host (configs d))"
  by (simp add: setDBConfig_def)

lemma loop_Host:
  "\<forall>(k, v)\<in>set kvs. v = f k \<Longrightarrow>
     Host (configs (supplementConfigs_loop sl kvs d)) =
       (if Host (configs d) = [] \<and> ''host'' \<in> fst ` set kvs then f ''host''
        else Host (configs d))"
proof (induction kvs arbitrary: d)
  case Nil
  then show ?case by simp
next
  case (Cons kv kvs)
  obtain k v where kv: "kv = (k, v)" by (cases kv)
  with Cons.prems have v: "v = f k" and rest: "\<forall>(k, v)\<in>set kvs. v = f k"
    by simp_all
  have "Host (configs (supplementConfigs_loop sl (kv # kvs) d)) =
        Host (configs (supplementConfigs_loop sl kvs (if k = ''database'' \<and> sl then d else setDBConfig k v d)))"
    by (simp only: kv supplementConfigs_loop_Cons)
  also have "\<dots> = (if Host (configs (if k = ''database'' \<and> sl then d else setDBConfig k v d)) = [] \<and> ''host'' \<in> fst ` set kvs
                   then f ''host'' else Host (configs (if k = ''database'' \<and> sl then d else setDBConfig k v d)))"
    by (rule Cons.IH [OF rest])
  also have "\<dots> = (if Host (configs d) = [] \<and> ''host'' \<in> fst ` set (kv # kvs) then f ''host''
                   else Host (configs d))"
    unfolding step_Host using v kv by (cases "k = ''host''") auto
  finally show ?case .
qed

lemma step_Username:
  "Username (configs (if k = ''database'' \<and> sl then d else setDBConfig k v d)) =
     (if k = ''username'' \<and> Username (configs d) = [] then v else Username (configs d))"
  by (simp add: setDBConfig_def)

lemma loop_Username:
  "\<forall>(k, v)\<in>set kvs. v = f k \<Longrightarrow>
     Username (configs (supplementConfigs_loop sl kvs d)) =
       (if Username (configs d) = [] \<and> ''username'' \<in> fst ` set kvs then f ''username''
        else Username (configs d))"
proof (induction kvs arbitrary: d)
  case Nil
  then show ?case by simp
next
  case (Cons kv kvs)
  obtain k v where kv: "kv = (k, v)" by (cases kv)
  with Cons.prems have v: "v = f k" and rest: "\<forall>(k, v)\<in>set kvs. v = f k"
    by simp_all
  have "Username (configs (supplementConfigs_loop sl (kv # kvs) d)) =
        Username (configs (supplementConfigs_loop sl kvs (if k = ''database'' \<and> sl then d else setDBConfig k v d)))"
    by (simp only: kv supplementConfigs_loop_Cons)
  also have "\<dots> = (if Username (configs (if k = ''database'' \<and> sl then d else setDBConfig k v d)) = [] \<and> ''username'' \<in> fst ` set kvs
                   then f ''username'' else Username (configs (if k = ''database'' \<and> sl then d else setDBConfig k v d)))"
    by (rule Cons.IH [OF rest])
  also have "\<dots> = (if Username (configs d) = [] \<and> ''username'' \<in> fst ` set (kv # kvs) then f ''username''
                   else Username (configs d))"
    unfolding step_Username using v kv by (cases "k = ''username''") auto
  finally show ?case .
qed

lemma step_Password:
  "Password (configs (if k = ''database'' \<and> sl then d else setDBConfig k v d)) =
     (if k = ''password'' \<and> Password (configs d) = [] then v else Password (configs d))"
  by (simp add: setDBConfig_def)

lemma loop_Password:
  "\<forall>(k, v)\<in>set kvs. v = f k \<Longrightarrow>
     Password (configs (supplementConfigs_loop sl kvs d)) =
       (if Password (configs d) = [] \<and> ''password'' \<in> fst ` set kvs then f ''password''
        else Password (configs d))"
proof (induction kvs arbitrary: d)
  case Nil
  then show ?case by simp
next
  case (Cons kv kvs)
  obtain k v where kv: "kv = (k, v)" by (cases kv)
  with Cons.prems have v: "v = f k" and rest: "\<forall>(k, v)\<in>set kvs. v = f k"
    by simp_all
  have "Password (configs (supplementConfigs_loop sl (kv # kvs) d)) =
        Password (configs (supplementConfigs_loop sl kvs (if k = ''database'' \<and> sl then d else setDBConfig k v d)))"
    by (simp only: kv supplementConfigs_loop_Cons)
  also have "\<dots> = (if Password (configs (if k = ''database'' \<and> sl then d else setDBConfig k v d)) = [] \<and> ''password'' \<in> fst ` set kvs
                   then f ''password'' else Password (configs (if k = ''database'' \<and> sl then d else setDBConfig k v d)))"
    by (rule Cons.IH [OF rest])
  also have "\<dots> = (if Password (configs d) = [] \<and> ''password'' \<in> fst ` set (kv # kvs) then f ''password''
                   else Password (configs d))"
    unfolding step_Password using v kv by (cases "k = ''password''") auto
  finally show ?case .
qed

lemma step_Port:
  "Port (configs (if k = ''database'' \<and> sl then d else setDBConfig k v d)) =
     (if k = ''port'' \<and> Port (configs d) = [] then v else Port (configs d))"
  by (simp add: setDBConfig_def)

lemma loop_Port:
  "\<forall>(k, v)\<in>set kvs. v = f k \<Longrightarrow>
     Port (configs (supplementConfigs_loop sl kvs d)) =
       (if Port (configs d) = [] \<and> ''port'' \<in> fst ` set kvs then f ''port''
        else Port (configs d))"
proof (induction kvs arbitrary: d)
  case Nil
  then show ?case by simp
next
  case (Cons kv kvs)
  obtain k v where kv: "kv = (k, v)" by (cases kv)
  with Cons.prems have v: "v = f k" and rest: "\<forall>(k, v)\<in>set kvs. v = f k"
    by simp_all
  have "Port (configs (supplementConfigs_loop sl (kv # kvs) d)) =
        Port (configs (supplementConfigs_loop sl kvs (if k = ''database'' \<and> sl then d else setDBConfig k v d)))"
    by (simp only: kv supplementConfigs_loop_Cons)
  also have "\<dots> = (if Port (configs (if k = ''database'' \<and> sl then d else setDBConfig k v d)) = [] \<and> ''port'' \<in> fst ` set kvs
                   then f ''port'' else Port (configs (if k = ''database'' \<and> sl then d else setDBConfig k v d)))"
    by (rule Cons.IH [OF rest])
  also have "\<dots> = (if Port (configs d) = [] \<and> ''port'' \<in> fst ` set (kv # kvs) then f ''port''
                   else Port (configs d))"
    unfolding step_Port using v kv by (cases "k = ''port''") auto
  finally show ?case .
qed

lemma step_Driver:
  "Driver (configs (if k = ''database'' \<and> sl then d else setDBConfig k v d)) =
     (if k = ''driver'' \<and> Driver (configs d) = [] then v else Driver (configs d))"
  by (simp add: setDBConfig_def)

lemma loop_Driver:
  "\<forall>(k, v)\<in>set kvs. v = f k \<Longrightarrow>
     Driver (configs (supplementConfigs_loop sl kvs d)) =
       (if Driver (configs d) = [] \<and> ''driver'' \<in> fst ` set kvs then f ''driver''
        else Driver (configs d))"
proof (induction kvs arbitrary: d)
  case Nil
  then show ?case by simp
next
  case (Cons kv kvs)
  obtain k v where kv: "kv = (k, v)" by (cases kv)
  with Cons.prems have v: "v = f k" and rest: "\<forall>(k, v)\<in>set kvs. v = f k"
    by simp_all
  have "Driver (configs (supplementConfigs_loop sl (kv # kvs) d)) =
        Driver (configs (supplementConfigs_loop sl kvs (if k = ''database'' \<and> sl then d else setDBConfig k v d)))"
    by (simp only: kv supplementConfigs_loop_Cons)
  also have "\<dots> = (if Driver (configs (if k = ''database'' \<and> sl then d else setDBConfig k v d)) = [] \<and> ''driver'' \<in> fst ` set kvs
                   then f ''driver'' else Driver (configs (if k = ''database'' \<and> sl then d else setDBConfig k v d)))"
    by (rule Cons.IH [OF rest])
  also have "\<dots> = (if Driver (configs d) = [] \<and> ''driver'' \<in> fst ` set (kv # kvs) then f ''driver''
                   else Driver (configs d))"
    unfolding step_Driver using v kv by (cases "k = ''driver''") auto
  finally show ?case .
qed

lemma step_Database:
  "Database (configs (if k = ''database'' \<and> sl then d else setDBConfig k v d)) =
     (if k = ''database'' \<and> \<not> sl \<and> Database (configs d) = [] then v else Database (configs d))"
  by (simp add: setDBConfig_def)

lemma loop_Database:
  "\<forall>(k, v)\<in>set kvs. v = f k \<Longrightarrow>
     Database (configs (supplementConfigs_loop sl kvs d)) =
       (if Database (configs d) = [] \<and> \<not> sl \<and> ''database'' \<in> fst ` set kvs then f ''database''
        else Database (configs d))"
proof (induction kvs arbitrary: d)
  case Nil
  then show ?case by simp
next
  case (Cons kv kvs)
  obtain k v where kv: "kv = (k, v)" by (cases kv)
  with Cons.prems have v: "v = f k" and rest: "\<forall>(k, v)\<in>set kvs. v = f k"
    by simp_all
  have "Database (configs (supplementConfigs_loop sl (kv # kvs) d)) =
        Database (configs (supplementConfigs_loop sl kvs (if k = ''database'' \<and> sl then d else setDBConfig k v d)))"
    by (simp only: kv supplementConfigs_loop_Cons)
  also have "\<dots> = (if Database (configs (if k = ''database'' \<and> sl then d else setDBConfig k v d)) = [] \<and> \<not> sl \<and>
                      ''database'' \<in> fst ` set kvs
                   then f ''database'' else Database (configs (if k = ''database'' \<and> sl then d else setDBConfig k v d)))"
    by (rule Cons.IH [OF rest])
  also have "\<dots> = (if Database (configs d) = [] \<and> \<not> sl \<and> ''database'' \<in> fst ` set (kv # kvs)
                   then f ''database'' else Database (configs d))"
    unfolding step_Database using v kv by (cases "k = ''database''") auto
  finally show ?case .
qed


lemma supplementConfigs_loop_frame:
  "connection (supplementConfigs_loop sl kvs d) = connection d \<and>
   Schemaless (supplementConfigs_loop sl kvs d) = Schemaless d"
  by (induction sl kvs d rule: supplementConfigs_loop.induct) (simp_all add: setDBConfig_frame)

lemma envConfigs_eq:
  "envConfigs getenv =
     [(''host'', getenv ''DB_HOST''), (''username'', getenv ''DB_USERNAME''),
      (''password'', getenv ''DB_PASSWORD''), (''port'', getenv ''DB_PORT''),
      (''database'', getenv ''DB_DATABASE''), (''driver'', getenv ''DB_CONNECTION'')]"
  by (simp add: envConfigs_def getEnvVars_def)

lemma envConfigs_values:
  "\<forall>(k, v)\<in>set (envConfigs getenv). v = the (map_of (envConfigs getenv) k)"
  unfolding envConfigs_eq by simp

lemma hasAllConfigs_fields:
  "hasAllConfigs d sl \<Longrightarrow>
     Host (configs d) \<noteq> [] \<and> Username (configs d) \<noteq> [] \<and> Password (configs d) \<noteq> [] \<and>
     Port (configs d) \<noteq> [] \<and> Driver (configs d) \<noteq> [] \<and> (sl \<or> Database (configs d) \<noteq> [])"
  by (simp add: hasAllConfigs_def split: if_splits)

lemma setConfigs_Host:
  assumes "rangeOrder visit (envConfigs getenv)"
  shows "Host (configs (setConfigs getenv visit sl d)) =
           (if Host (configs d) = [] then getenv ''DB_HOST'' else Host (configs d))"
proof (cases "hasAllConfigs d sl")
  case True
  with hasAllConfigs_fields [OF True] show ?thesis by (simp add: setConfigs_def)
next
  case False
  from assms have s: "set (visit (envConfigs getenv)) = set (envConfigs getenv)"
    by (simp add: rangeOrder_def)
  have vals: "\<forall>(k, v)\<in>set (visit (envConfigs getenv)). v = the (map_of (envConfigs getenv) k)"
    unfolding s by (rule envConfigs_values)
  have "''host'' \<in> fst ` set (envConfigs getenv)"
    by (simp add: envConfigs_eq)
  then have key: "''host'' \<in> fst ` set (visit (envConfigs getenv))"
    by (simp only: s)
  have val: "the (map_of (envConfigs getenv) ''host'') = getenv ''DB_HOST''"
    unfolding envConfigs_eq by simp
  from False have "setConfigs getenv visit sl d =
      supplementConfigs_loop sl (visit (envConfigs getenv)) d"
    by (simp add: setConfigs_def supplementConfigs_def)
  then show ?thesis
    using loop_Host [OF vals, of sl d] key val by simp
qed

lemma setConfigs_Username:
  assumes "rangeOrder visit (envConfigs getenv)"
  shows "Username (configs (setConfigs getenv visit sl d)) =
           (if Username (configs d) = [] then getenv ''DB_USERNAME'' else Username (configs d))"
proof (cases "hasAllConfigs d sl")
  case True
  with hasAllConfigs_fields [OF True] show ?thesis by (simp add: setConfigs_def)
next
  case False
  from assms have s: "set (visit (envConfigs getenv)) = set (envConfigs getenv)"
    by (simp add: rangeOrder_def)
  have vals: "\<forall>(k, v)\<in>set (visit (envConfigs getenv)). v = the (map_of (envConfigs getenv) k)"
    unfolding s by (rule envConfigs_values)
  have "''username'' \<in> fst ` set (envConfigs getenv)"
    by (simp add: envConfigs_eq)
  then have key: "''username'' \<in> fst ` set (visit (envConfigs getenv))"
    by (simp only: s)
  have val: "the (map_of (envConfigs getenv) ''username'') = getenv ''DB_USERNAME''"
    unfolding envConfigs_eq by simp
  from False have "setConfigs getenv visit sl d =
      supplementConfigs_loop sl (visit (envConfigs getenv)) d"
    by (simp add: setConfigs_def supplementConfigs_def)
  then show ?thesis
    using loop_Username [OF vals, of sl d] key val by simp
qed

lemma setConfigs_Password:
  assumes "rangeOrder visit (envConfigs getenv)"
  shows "Password (configs (setConfigs getenv visit sl d)) =
           (if Password (configs d) = [] then getenv ''DB_PASSWORD'' else Password (configs d))"
proof (cases "hasAllConfigs d sl")
  case True
  with hasAllConfigs_fields [OF True] show ?thesis by (simp add: setConfigs_def)
next
  case False
  from assms have s: "set (visit (envConfigs getenv)) = set (envConfigs getenv)"
    by (simp add: rangeOrder_def)
  have vals: "\<forall>(k, v)\<in>set (visit (envConfigs getenv)). v = the (map_of (envConfigs getenv) k)"
    unfolding s by (rule envConfigs_values)
  have "''password'' \<in> fst ` set (envConfigs getenv)"
    by (simp add: envConfigs_eq)
  then have key: "''password'' \<in> fst ` set (visit (envConfigs getenv))"
    by (simp only: s)
  have val: "the (map_of (envConfigs getenv) ''password'') = getenv ''DB_PASSWORD''"
    unfolding envConfigs_eq by simp
  from False have "setConfigs getenv visit sl d =
      supplementConfigs_loop sl (visit (envConfigs getenv)) d"
    by (simp add: setConfigs_def supplementConfigs_def)
  then show ?thesis
    using loop_Password [OF vals, of sl d] key val by simp
qed

lemma setConfigs_Port:
  assumes "rangeOrder visit (envConfigs getenv)"
  shows "Port (configs (setConfigs getenv visit sl d)) =
           (if Port (configs d) = [] then getenv ''DB_PORT'' else Port (configs d))"
proof (cases "hasAllConfigs d sl")
  case True
  with hasAllConfigs_fields [OF True] show ?thesis by (simp add: setConfigs_def)
next
  case False
  from assms have s: "set (visit (envConfigs getenv)) = set (envConfigs getenv)"
    by (simp add: rangeOrder_def)
  have vals: "\<forall>(k, v)\<in>set (visit (envConfigs getenv)). v = the (map_of (envConfigs getenv) k)"
    unfolding s by (rule envConfigs_values)
  have "''port'' \<in> fst ` set (envConfigs getenv)"
    by (simp add: envConfigs_eq)
  then have key: "''port'' \<in> fst ` set (visit (envConfigs getenv))"
    by (simp only: s)
  have val: "the (map_of (envConfigs getenv) ''port'') = getenv ''DB_PORT''"
    unfolding envConfigs_eq by simp
  from False have "setConfigs getenv visit sl d =
      supplementConfigs_loop sl (visit (envConfigs getenv)) d"
    by (simp add: setConfigs_def supplementConfigs_def)
  then show ?thesis
    using loop_Port [OF vals, of sl d] key val by simp
qed

lemma setConfigs_Driver:
  assumes "rangeOrder visit (envConfigs getenv)"
  shows "Driver (configs (setConfigs getenv visit sl d)) =
           (if Driver (configs d) = [] then getenv ''DB_CONNECTION'' else Driver (configs d))"
proof (cases "hasAllConfigs d sl")
  case True
  with hasAllConfigs_fields [OF True] show ?thesis by (simp add: setConfigs_def)
next
  case False
  from assms have s: "set (visit (envConfigs getenv)) = set (envConfigs getenv)"
    by (simp add: rangeOrder_def)
  have vals: "\<forall>(k, v)\<in>set (visit (envConfigs getenv)). v = the (map_of (envConfigs getenv) k)"
    unfolding s by (rule envConfigs_values)
  have "''driver'' \<in> fst ` set (envConfigs getenv)"
    by (simp add: envConfigs_eq)
  then have key: "''driver'' \<in> fst ` set (visit (envConfigs getenv))"
    by (simp only: s)
  have val: "the (map_of (envConfigs getenv) ''driver'') = getenv ''DB_CONNECTION''"
    unfolding envConfigs_eq by simp
  from False have "setConfigs getenv visit sl d =
      supplementConfigs_loop sl (visit (envConfigs getenv)) d"
    by (simp add: setConfigs_def supplementConfigs_def)
  then show ?thesis
    using loop_Driver [OF vals, of sl d] key val by simp
qed

lemma setConfigs_Database:
  assumes "rangeOrder visit (envConfigs getenv)"
  shows "Database (configs (setConfigs getenv visit sl d)) =
           (if Database (configs d) = [] \<and> \<not> sl then getenv ''DB_DATABASE''
            else Database (configs d))"
proof (cases "hasAllConfigs d sl")
  case True
  with hasAllConfigs_fields [OF True] show ?thesis by (auto simp add: setConfigs_def)
next
  case False
  from assms have s: "set (visit (envConfigs getenv)) = set (envConfigs getenv)"
    by (simp add: rangeOrder_def)
  have vals: "\<forall>(k, v)\<in>set (visit (envConfigs getenv)). v = the (map_of (envConfigs getenv) k)"
    unfolding s by (rule envConfigs_values)
  have "''database'' \<in> fst ` set (envConfigs getenv)"
    by (simp add: envConfigs_eq)
  then have key: "''database'' \<in> fst ` set (visit (envConfigs getenv))"
    by (simp only: s)
  have val: "the (map_of (envConfigs getenv) ''database'') = getenv ''DB_DATABASE''"
    unfolding envConfigs_eq by simp
  from False have "setConfigs getenv visit sl d =
      supplementConfigs_loop sl (visit (envConfigs getenv)) d"
    by (simp add: setConfigs_def supplementConfigs_def)
  then show ?thesis
    using loop_Database [OF vals, of sl d] key val by simp
qed

lemma connect_configs:
  "connect sql_Open d = Inr d' \<Longrightarrow> configs d' = configs d \<and> Schemaless d' = Schemaless d"
  by (auto simp add: connect_def split: sum.splits)


lemma connect_returns:
  "(\<exists>d'. connect sql_Open d = Inr d') \<longleftrightarrow>
     (\<exists>conn. sql_Open (Driver (configs d)) (connectionString d) = Inr conn)"
  by (cases "sql_Open (Driver (configs d)) (connectionString d)") (simp_all add: connect_def)

lemma Make_configs:
  "Make sql_Open getenv visit cfg = Inr d \<Longrightarrow>
     configs d = configs (setConfigs getenv visit False
                   \<lparr>connection = None, configs = cfg, Schemaless = False\<rparr>)"
  unfolding Make_def by (drule connect_configs) simp

lemma MakeSchemaless_configs:
  "MakeSchemaless sql_Open getenv visit cfg = Inr d \<Longrightarrow>
     configs d = configs (setConfigs getenv visit True
                   \<lparr>connection = None, configs = cfg, Schemaless = True\<rparr>)"
  unfolding MakeSchemaless_def by (drule connect_configs) simp

lemma sample_rangeOrder: "rangeOrder rev (envConfigs sample_getenv)"
  by (simp add: rangeOrder_def)

lemma sample_partial_setConfigs:
  "setConfigs sample_getenv rev sl
     \<lparr>connection = None,
      configs = \<lparr>Host = [], Username = ''root'', Password = [], Port = ''3306'',
                 Database = [], Driver = []\<rparr>,
      Schemaless = sl\<rparr> =
   \<lparr>connection = None,
    configs = \<lparr>Host = ''10.0.0.5'', Username = ''root'', Password = [], Port = ''3306'',
               Database = (if sl then [] else ''envshop''), Driver = ''mysql''\<rparr>,
    Schemaless = sl\<rparr>"
  by (simp add: setConfigs_def hasAllConfigs_def supplementConfigs_def envConfigs_eq
      setDBConfig_def sample_getenv_def)

text \<open>
  C7. Supplementation is per field. After \<open>Make\<close> each of the six fields has its explicit
  value if that was not empty and the value of its environment variable otherwise; after
  \<open>MakeSchemaless\<close> the same holds for the five fields other than \<open>Database\<close>, and
  \<open>Database\<close> keeps its explicit value, empty or not. \<open>visit\<close> is any order in which
  \<open>range\<close> may yield the entries of \<open>envConfigs()\<close>.
\<close>

theorem config_supplementation_per_field:
  assumes "rangeOrder visit (envConfigs getenv)"
  shows "(Make sql_Open getenv visit cfg = Inr d \<longrightarrow>
            Host (configs d) = (if Host cfg = [] then getenv ''DB_HOST'' else Host cfg) \<and>
            Username (configs d) = (if Username cfg = [] then getenv ''DB_USERNAME'' else Username cfg) \<and>
            Password (configs d) = (if Password cfg = [] then getenv ''DB_PASSWORD'' else Password cfg) \<and>
            Port (configs d) = (if Port cfg = [] then getenv ''DB_PORT'' else Port cfg) \<and>
            Driver (configs d) = (if Driver cfg = [] then getenv ''DB_CONNECTION'' else Driver cfg) \<and>
            Database (configs d) =
              (if Database cfg = [] then getenv ''DB_DATABASE'' else Database cfg)) \<and>
         (MakeSchemaless sql_Open getenv visit cfg = Inr d \<longrightarrow>
            Host (configs d) = (if Host cfg = [] then getenv ''DB_HOST'' else Host cfg) \<and>
            Username (configs d) = (if Username cfg = [] then getenv ''DB_USERNAME'' else Username cfg) \<and>
            Password (configs d) = (if Password cfg = [] then getenv ''DB_PASSWORD'' else Password cfg) \<and>
            Port (configs d) = (if Port cfg = [] then getenv ''DB_PORT'' else Port cfg) \<and>
            Driver (configs d) = (if Driver cfg = [] then getenv ''DB_CONNECTION'' else Driver cfg) \<and>
            Database (configs d) = Database cfg)"
proof (intro conjI impI)
  assume "Make sql_Open getenv visit cfg = Inr d"
  note c = Make_configs [OF this]
  show "Host (configs d) = (if Host cfg = [] then getenv ''DB_HOST'' else Host cfg)"
    unfolding c setConfigs_Host [OF assms] by simp
  show "Username (configs d) = (if Username cfg = [] then getenv ''DB_USERNAME'' else Username cfg)"
    unfolding c setConfigs_Username [OF assms] by simp
  show "Password (configs d) = (if Password cfg = [] then getenv ''DB_PASSWORD'' else Password cfg)"
    unfolding c setConfigs_Password [OF assms] by simp
  show "Port (configs d) = (if Port cfg = [] then getenv ''DB_PORT'' else Port cfg)"
    unfolding c setConfigs_Port [OF assms] by simp
  show "Driver (configs d) = (if Driver cfg = [] then getenv ''DB_CONNECTION'' else Driver cfg)"
    unfolding c setConfigs_Driver [OF assms] by simp
  show "Database (configs d) = (if Database cfg = [] then getenv ''DB_DATABASE'' else Database cfg)"
    unfolding c setConfigs_Database [OF assms] by simp
next
  assume "MakeSchemaless sql_Open getenv visit cfg = Inr d"
  note c = MakeSchemaless_configs [OF this]
  show "Host (configs d) = (if Host cfg = [] then getenv ''DB_HOST'' else Host cfg)"
    unfolding c setConfigs_Host [OF assms] by simp
  show "Username (configs d) = (if Username cfg = [] then getenv ''DB_USERNAME'' else Username cfg)"
    unfolding c setConfigs_Username [OF assms] by simp
  show "Password (configs d) = (if Password cfg = [] then getenv ''DB_PASSWORD'' else Password cfg)"
    unfolding c setConfigs_Password [OF assms] by simp
  show "Port (configs d) = (if Port cfg = [] then getenv ''DB_PORT'' else Port cfg)"
    unfolding c setConfigs_Port [OF assms] by simp
  show "Driver (configs d) = (if Driver cfg = [] then getenv ''DB_CONNECTION'' else Driver cfg)"
    unfolding c setConfigs_Driver [OF assms] by simp
  show "Database (configs d) = Database cfg"
    unfolding c setConfigs_Database [OF assms] by simp
qed

theorem config_supplementation_per_field_witness:
  "Make sample_Open sample_getenv rev
     \<lparr>Host = [], Username = ''root'', Password = [], Port = ''3306'', Database = [], Driver = []\<rparr>
     = Inr \<lparr>connection = Some (sample_DB []),
            configs = \<lparr>Host = ''10.0.0.5'', Username = ''root'', Password = [], Port = ''3306'',
                       Database = ''envshop'', Driver = ''mysql''\<rparr>,
            Schemaless = False\<rparr> \<and>
   MakeSchemaless sample_Open sample_getenv rev
     \<lparr>Host = [], Username = ''root'', Password = [], Port = ''3306'', Database = [], Driver = []\<rparr>
     = Inr \<lparr>connection = Some (sample_DB []),
            configs = \<lparr>Host = ''10.0.0.5'', Username = ''root'', Password = [], Port = ''3306'',
                       Database = [], Driver = ''mysql''\<rparr>,
            Schemaless = True\<rparr> \<and>
   ''10.0.0.5'' = sample_getenv ''DB_HOST'' \<and> [] = sample_getenv ''DB_PASSWORD'' \<and>
   ''mysql'' = sample_getenv ''DB_CONNECTION'' \<and> ''envshop'' = sample_getenv ''DB_DATABASE''"
proof -
  let ?cfg = "\<lparr>Host = [], Username = ''root'', Password = [], Port = ''3306'', Database = [],
               Driver = []\<rparr>"
  let ?d1 = "\<lparr>connection = Some (sample_DB []),
            configs = \<lparr>Host = ''10.0.0.5'', Username = ''root'', Password = [], Port = ''3306'',
                       Database = ''envshop'', Driver = ''mysql''\<rparr>,
            Schemaless = False\<rparr>"
  let ?d2 = "\<lparr>connection = Some (sample_DB []),
            configs = \<lparr>Host = ''10.0.0.5'', Username = ''root'', Password = [], Port = ''3306'',
                       Database = [], Driver = ''mysql''\<rparr>,
            Schemaless = True\<rparr>"
  have m1: "Make sample_Open sample_getenv rev ?cfg = Inr ?d1"
    using sample_partial_setConfigs [of False]
    by (simp add: Make_def connect_def sample_Open_def)
  have m2: "MakeSchemaless sample_Open sample_getenv rev ?cfg = Inr ?d2"
    using sample_partial_setConfigs [of True]
    by (simp add: MakeSchemaless_def connect_def sample_Open_def)
  from config_supplementation_per_field [OF sample_rangeOrder, of sample_Open ?cfg ?d1] m1
    config_supplementation_per_field [OF sample_rangeOrder, of sample_Open ?cfg ?d2] m2
  show ?thesis by simp
qed

lemma unreachable_DB_inject:
  "unreachable_DB a = unreachable_DB b \<Longrightarrow> a = b"
proof -
  assume "unreachable_DB a = unreachable_DB b"
  then have "db_Exec (unreachable_DB a) [] [] = db_Exec (unreachable_DB b) [] []" by simp
  then show "a = b" by (simp add: unreachable_DB_def)
qed

text \<open>
  C10, as stated, fails: \<open>SetSchema\<close> also changes the \<open>connection\<close> field. On a handle
  made schemaless, whose connection was opened on the data source without a schema,
  \<open>SetSchema\<close> returns with a connection opened on the data source with the schema.
\<close>

theorem SetSchema_connection_counterexample:
  "SetSchema unreachable_Open ''shop2''
     \<lparr>connection = Some (unreachable_DB ''root:pw@tcp(10.0.0.5:3306)/''),
      configs = \<lparr>Host = ''10.0.0.5'', Username = ''root'', Password = ''pw'', Port = ''3306'',
                 Database = [], Driver = ''mysql''\<rparr>,
      Schemaless = True\<rparr>
   = Inr \<lparr>connection = Some (unreachable_DB ''root:pw@tcp(10.0.0.5:3306)/shop2''),
          configs = \<lparr>Host = ''10.0.0.5'', Username = ''root'', Password = ''pw'', Port = ''3306'',
                     Database = ''shop2'', Driver = ''mysql''\<rparr>,
          Schemaless = False\<rparr> \<and>
   Some (unreachable_DB ''root:pw@tcp(10.0.0.5:3306)/shop2'') \<noteq>
   Some (unreachable_DB ''root:pw@tcp(10.0.0.5:3306)/'')"
proof -
  have "unreachable_DB ''root:pw@tcp(10.0.0.5:3306)/shop2'' \<noteq>
        unreachable_DB ''root:pw@tcp(10.0.0.5:3306)/''"
    using unreachable_DB_inject [of "''root:pw@tcp(10.0.0.5:3306)/shop2''" "''root:pw@tcp(10.0.0.5:3306)/''"]
    by auto
  then show ?thesis
    by (simp add: SetSchema_def connect_def connectionString_def unreachable_Open_def)
qed

text \<open>
  C10, amended. When \<open>SetSchema\<close> returns, the handle differs from the old one in three
  fields only: the configs' \<open>Database\<close> is the schema name, \<open>Schemaless\<close> is false, and
  \<open>connection\<close> is the connection that \<open>sql.Open\<close> gave for the driver and the new
  connection string. Host, username, password, port and driver are unchanged.
\<close>

theorem SetSchema_frame:
  assumes "SetSchema sql_Open schemaName d = Inr d'"
  shows "configs d' = (configs d)\<lparr>Database := schemaName\<rparr> \<and>
         Database (configs d') = schemaName \<and>
         Schemaless d' = False \<and>
         Host (configs d') = Host (configs d) \<and>
         Username (configs d') = Username (configs d) \<and>
         Password (configs d') = Password (configs d) \<and>
         Port (configs d') = Port (configs d) \<and>
         Driver (configs d') = Driver (configs d) \<and>
         (\<exists>conn. sql_Open (Driver (configs d))
                    (connectionString
                       (d\<lparr>configs := (configs d)\<lparr>Database := schemaName\<rparr>, Schemaless := False\<rparr>))
                  = Inr conn \<and>
                d' = d\<lparr>connection := Some conn,
                       configs := (configs d)\<lparr>Database := schemaName\<rparr>,
                       Schemaless := False\<rparr>)"
proof -
  from assms obtain conn where
    o: "sql_Open (Driver (configs d))
          (connectionString (d\<lparr>configs := (configs d)\<lparr>Database := schemaName\<rparr>, Schemaless := False\<rparr>))
        = Inr conn"
    and d': "d' = d\<lparr>connection := Some conn, configs := (configs d)\<lparr>Database := schemaName\<rparr>,
                    Schemaless := False\<rparr>"
    by (auto simp add: SetSchema_def connect_def split: sum.splits)
  from d' have "configs d' = (configs d)\<lparr>Database := schemaName\<rparr>" and "Schemaless d' = False"
    by simp_all
  with o d' show ?thesis by auto
qed

theorem SetSchema_frame_witness:
  "SetSchema sample_Open ''shop2''
     \<lparr>connection = None,
      configs = \<lparr>Host = ''10.0.0.5'', Username = ''root'', Password = ''pw'', Port = ''3306'',
                 Database = [], Driver = ''mysql''\<rparr>,
      Schemaless = True\<rparr>
   = Inr \<lparr>connection = Some (sample_DB []),
          configs = \<lparr>Host = ''10.0.0.5'', Username = ''root'', Password = ''pw'', Port = ''3306'',
                     Database = ''shop2'', Driver = ''mysql''\<rparr>,
          Schemaless = False\<rparr>"
proof -
  let ?d = "\<lparr>connection = None,
      configs = \<lparr>Host = ''10.0.0.5'', Username = ''root'', Password = ''pw'', Port = ''3306'',
                 Database = [], Driver = ''mysql''\<rparr>,
      Schemaless = True\<rparr>"
  obtain d' where r: "SetSchema sample_Open ''shop2'' ?d = Inr d'"
    by (simp add: SetSchema_def connect_def sample_Open_def)
  from SetSchema_frame [OF r] obtain conn where
    "sample_Open ''mysql'' (connectionString
        (?d\<lparr>configs := (configs ?d)\<lparr>Database := ''shop2''\<rparr>, Schemaless := False\<rparr>)) = Inr conn"
    and "d' = ?d\<lparr>connection := Some conn, configs := (configs ?d)\<lparr>Database := ''shop2''\<rparr>,
                   Schemaless := False\<rparr>"
    by auto
  then have "d' = \<lparr>connection = Some (sample_DB []),
          configs = \<lparr>Host = ''10.0.0.5'', Username = ''root'', Password = ''pw'', Port = ''3306'',
                     Database = ''shop2'', Driver = ''mysql''\<rparr>,
          Schemaless = False\<rparr>"
    by (auto simp add: sample_Open_def)
  with r show ?thesis by simp
qed

section \<open>Properties of Update\<close>

lemma sample_Update_call:
  "Update_call sample_Record ''sku'' =
     (''UPDATE `shop`.`widgets` SET weight = ? WHERE sku = ?;'',
      [DFloat64 0x405BB9999999999A, DString ''WIDG4''])"
  by (simp add: Update_call_def sample_Record_def Name_def sample_Database_def sample_Configs_def
      TrimRight_def index_properties_def)

lemma sample_Exec:
  "Exec (sample_Database rows) query (Some args) =
     Inr \<lparr>res_LastInsertId = Inr 0, res_RowsAffected = Inr 1\<rparr>"
  by (simp add: Exec_def sample_Database_def sample_DB_def)

text \<open>
  C2, as stated, fails: on a connection whose \<open>Exec\<close> reports one affected row and the
  last insert id 0, \<open>Update\<close> returns 0, which is not the affected-row count.
\<close>

theorem Update_result_counterexample:
  "Exec (database sample_Record) (fst (Update_call sample_Record ''sku''))
       (Some (snd (Update_call sample_Record ''sku'')))
     = Inr \<lparr>res_LastInsertId = Inr 0, res_RowsAffected = Inr 1\<rparr> \<and>
   Update sample_Record ''sku'' = Inr 0 \<and>
   Update sample_Record ''sku'' \<noteq>
     res_RowsAffected \<lparr>res_LastInsertId = Inr 0, res_RowsAffected = Inr 1\<rparr>"
  by (simp add: Update_def sample_Record_def sample_Exec)

text \<open>
  C2, amended. The integer a successful \<open>Update\<close> returns is the last insert id that the
  result of the execute operation reports for the UPDATE statement; the affected-row count
  is not read.
\<close>

theorem Update_returns_last_insert_id:
  assumes "Update r ident = Inr n"
  shows "\<exists>res. Exec (database r) (fst (Update_call r ident)) (Some (snd (Update_call r ident)))
                  = Inr res \<and>
               res_LastInsertId res = Inr n"
  using assms by (auto simp add: Update_def split: sum.splits)

theorem Update_returns_last_insert_id_witness:
  "Update (sample_Record\<lparr>database := (sample_Database [])\<lparr>connection :=
       Some \<lparr>db_Exec = (\<lambda>query args. Inr \<lparr>res_LastInsertId = Inr 42, res_RowsAffected = Inr 1\<rparr>),
             db_Query = (\<lambda>query args. Inl (Error ''no query''))\<rparr>\<rparr>\<rparr>) ''sku'' = Inr 42"
proof -
  let ?r = "sample_Record\<lparr>database := (sample_Database [])\<lparr>connection :=
       Some \<lparr>db_Exec = (\<lambda>query args. Inr \<lparr>res_LastInsertId = Inr 42, res_RowsAffected = Inr 1\<rparr>),
             db_Query = (\<lambda>query args. Inl (Error ''no query''))\<rparr>\<rparr>\<rparr>"
  have u: "Update ?r ''sku'' = Inr 42"
    by (simp add: Update_def Exec_def)
  from Update_returns_last_insert_id [OF u] u show ?thesis by simp
qed


end
